theory Spec2Isabelle
  imports Complex_Main
begin

section \<open>Python strings\<close>

text \<open>
  A Python \<^verbatim>\<open>str\<close> is a sequence of Unicode code points, modelled as a list of
  naturals. ASCII literals of the source are written through \<open>ascii\<close>; the Chinese
  literals are given by their code points. A \<^verbatim>\<open>bytes\<close> value, and a header value as
  \<^verbatim>\<open>http.client\<close> delivers it (decoded as ISO-8859-1), is a list of 8-bit characters.
\<close>

type_synonym pystr = "nat list"

type_synonym bytes = "char list"

definition ascii :: "string \<Rightarrow> pystr" where
  "ascii s = map of_char s"

definition py_isspace :: "nat \<Rightarrow> bool" where
  \<comment> \<open>\<^verbatim>\<open>str.isspace\<close> on one code point: the set \<^verbatim>\<open>str.strip()\<close> removes.\<close>
  "py_isspace c \<longleftrightarrow>
     (9 \<le> c \<and> c \<le> 13) \<or> (28 \<le> c \<and> c \<le> 32) \<or> c = 133 \<or> c = 160 \<or> c = 5760 \<or>
     (8192 \<le> c \<and> c \<le> 8202) \<or> c = 8232 \<or> c = 8233 \<or> c = 8239 \<or> c = 8287 \<or> c = 12288"

definition py_lstrip :: "pystr \<Rightarrow> pystr" where
  "py_lstrip s = dropWhile py_isspace s"

definition py_rstrip :: "pystr \<Rightarrow> pystr" where
  "py_rstrip s = rev (dropWhile py_isspace (rev s))"

definition py_strip :: "pystr \<Rightarrow> pystr" where
  "py_strip s = py_rstrip (py_lstrip s)"

definition startswith :: "pystr \<Rightarrow> pystr \<Rightarrow> bool" where
  "startswith s p \<longleftrightarrow> take (length p) s = p"

fun is_infix :: "'a list \<Rightarrow> 'a list \<Rightarrow> bool" where
  \<comment> \<open>Python's \<^verbatim>\<open>p in s\<close> on strings: \<open>p\<close> occurs in \<open>s\<close> as a contiguous run.\<close>
  "is_infix p [] = (p = [])"
| "is_infix p (c # cs) = (take (length p) (c # cs) = p \<or> is_infix p cs)"

section \<open>URL normaliser\<close>

definition is_alpha :: "nat \<Rightarrow> bool" where
  \<comment> \<open>the class \<^verbatim>\<open>[a-zA-Z]\<close>\<close>
  "is_alpha c \<longleftrightarrow> (97 \<le> c \<and> c \<le> 122) \<or> (65 \<le> c \<and> c \<le> 90)"

definition is_domain_char :: "nat \<Rightarrow> bool" where
  \<comment> \<open>the class \<^verbatim>\<open>[a-zA-Z0-9.-]\<close>\<close>
  "is_domain_char c \<longleftrightarrow> is_alpha c \<or> (48 \<le> c \<and> c \<le> 57) \<or> c = 46 \<or> c = 45"

fun tld_here :: "pystr \<Rightarrow> bool" where
  \<comment> \<open>\<^verbatim>\<open>\.[a-zA-Z]{2,}\<close> matched at the head of the remaining input\<close>
  "tld_here (d # a # b # _) = (d = 46 \<and> is_alpha a \<and> is_alpha b)"
| "tld_here _ = False"

fun backtrack :: "pystr \<Rightarrow> nat \<Rightarrow> bool" where
  \<comment> \<open>the greedy \<^verbatim>\<open>+\<close> has taken \<open>n\<close> characters; it gives them back one at a time,
      never going below one\<close>
  "backtrack s 0 = False"
| "backtrack s (Suc n) = (tld_here (drop (Suc n) s) \<or> backtrack s n)"

definition re_match_domain :: "pystr \<Rightarrow> bool" where
  \<comment> \<open>\<^verbatim>\<open>re.match(r'^[a-zA-Z0-9.-]+\.[a-zA-Z]{2,}', s)\<close> is a match object\<close>
  "re_match_domain s = backtrack s (length (takeWhile is_domain_char s))"

definition domain_shape :: "pystr \<Rightarrow> bool" where
  \<comment> \<open>The pattern in the specification's words: one or more characters of
      \<^verbatim>\<open>[a-zA-Z0-9.-]\<close>, a literal dot, at least two alphabetic characters, anchored at
      the start (anything may follow).\<close>
  "domain_shape s \<longleftrightarrow>
     (\<exists>p t r. s = p @ [46] @ t @ r \<and> p \<noteq> [] \<and> list_all is_domain_char p \<and>
        2 \<le> length t \<and> list_all is_alpha t)"

definition http_scheme :: pystr where
  "http_scheme = ascii ''http://''"

definition https_scheme :: pystr where
  "https_scheme = ascii ''https://''"

definition normalize_url :: "pystr \<Rightarrow> pystr option" where
  "normalize_url url_line =
     (let url_line = py_strip url_line in
      if url_line = [] then None
      else if \<not> (startswith url_line http_scheme \<or> startswith url_line https_scheme) then
        (if re_match_domain url_line then Some (https_scheme @ url_line) else None)
      else Some url_line)"

section \<open>Title extractor\<close>

text \<open>
  \<^verbatim>\<open>BeautifulSoup(html_content, 'html.parser')\<close> is a library call: it is a parameter of
  the model, giving for a byte payload either the text of the exception it raised or the
  parsed document, a forest of nodes. A node is a tag with its name and children, or a
  string with the class the parser gave it. \<^verbatim>\<open>find\<close> walks the document in document order
  (pre-order) and returns the first tag of the name. \<^verbatim>\<open>get_text\<close> joins the strings below
  a tag whose class is exactly \<^verbatim>\<open>NavigableString\<close> or \<^verbatim>\<open>CData\<close>: a comment, a doctype,
  the text of a \<^verbatim>\<open>script\<close>, \<^verbatim>\<open>style\<close> or \<^verbatim>\<open>template\<close> element and every other string
  of a subclass is left out. A tag is always true in a condition, whatever it contains.
\<close>

datatype string_class =
    NavigableString | CData | PreformattedString | ProcessingInstruction
  | XMLProcessingInstruction | Comment | Declaration | Doctype | Stylesheet | Script
  | TemplateString | RubyTextString | RubyParenthesisString

datatype node = Tag pystr "node list" | Str string_class pystr

type_synonym html_parser = "bytes \<Rightarrow> pystr + node list"

fun find_node :: "pystr \<Rightarrow> node \<Rightarrow> node option"
  and find_nodes :: "pystr \<Rightarrow> node list \<Rightarrow> node option" where
  "find_node name (Tag n children) =
     (if n = name then Some (Tag n children) else find_nodes name children)"
| "find_node name (Str _ _) = None"
| "find_nodes name [] = None"
| "find_nodes name (x # xs) =
     (case find_node name x of Some t \<Rightarrow> Some t | None \<Rightarrow> find_nodes name xs)"

fun get_text :: "node \<Rightarrow> pystr"
  and get_texts :: "node list \<Rightarrow> pystr" where
  "get_text (Tag _ children) = get_texts children"
| "get_text (Str c s) = (if c = NavigableString \<or> c = CData then s else [])"
| "get_texts [] = []"
| "get_texts (x # xs) = get_text x @ get_texts xs"

definition no_title :: pystr where
  \<comment> \<open>the literal of line 72\<close>
  "no_title = [26080, 26631, 39064]"

definition title_failed_prefix :: pystr where
  \<comment> \<open>the literal of line 74, up to the colon and the space\<close>
  "title_failed_prefix = [26631, 39064, 25552, 21462, 22833, 36133, 58, 32]"

definition extract_title :: "html_parser \<Rightarrow> bytes \<Rightarrow> pystr" where
  "extract_title BeautifulSoup html_content =
     (case BeautifulSoup html_content of
        Inl e \<Rightarrow> title_failed_prefix @ e
      | Inr soup \<Rightarrow>
          (case find_nodes (ascii ''title'') soup of
             Some title_tag \<Rightarrow> py_strip (get_text title_tag)
           | None \<Rightarrow> no_title))"

text \<open>Document order, to state what \<^verbatim>\<open>find\<close> returns: the nodes of a forest in pre-order.\<close>

fun preorder :: "node \<Rightarrow> node list"
  and preorders :: "node list \<Rightarrow> node list" where
  "preorder (Tag n children) = Tag n children # preorders children"
| "preorder (Str c s) = [Str c s]"
| "preorders [] = []"
| "preorders (x # xs) = preorder x @ preorders xs"

fun is_tag_named :: "pystr \<Rightarrow> node \<Rightarrow> bool" where
  "is_tag_named name (Tag n _) = (n = name)"
| "is_tag_named name (Str _ _) = False"

section \<open>Per-URL processor\<close>

text \<open>
  An exception is kept with the text \<^verbatim>\<open>str(e)\<close> gives, and split the way the handlers of
  \<^verbatim>\<open>process_url\<close> split the class \<^verbatim>\<open>Exception\<close>. \<^verbatim>\<open>KeyboardInterrupt\<close> and
  \<^verbatim>\<open>SystemExit\<close> are not in that class and are no outcome of a fetch.
\<close>

datatype exn = RequestException pystr | OtherException pystr

record response =
  resp_status_code :: int
  resp_headers :: "string \<rightharpoonup> string"
  resp_content :: bytes

text \<open>
  \<open>resp_headers\<close> is the case-insensitive dictionary of \<^verbatim>\<open>requests\<close>, keyed by the
  lower-cased header name.
\<close>

definition headers_get :: "(string \<rightharpoonup> string) \<Rightarrow> string \<Rightarrow> string \<Rightarrow> string" where
  "headers_get h k d = (case h k of None \<Rightarrow> d | Some v \<Rightarrow> v)"

definition lower_char :: "char \<Rightarrow> char" where
  \<comment> \<open>\<^verbatim>\<open>str.lower\<close> on a character of ISO-8859-1\<close>
  "lower_char c =
     (let n = (of_char c :: nat) in
      if (65 \<le> n \<and> n \<le> 90) \<or> (192 \<le> n \<and> n \<le> 222 \<and> n \<noteq> 215) then char_of (n + 32) else c)"

definition py_lower :: "string \<Rightarrow> string" where
  "py_lower s = map lower_char s"

datatype status = Code int | Marker pystr

record result =
  res_url :: pystr
  res_status_code :: status
  res_title :: pystr
  res_success :: bool

definition non_html_prefix :: pystr where
  \<comment> \<open>the literal of line 87, up to the colon and the space\<close>
  "non_html_prefix = [38750, 72, 84, 77, 76, 20869, 23481, 58, 32]"

definition error_prefix :: pystr where
  \<comment> \<open>the literal of lines 100 and 107, up to the colon and the space\<close>
  "error_prefix = [38169, 35823, 58, 32]"

definition request_failed :: pystr where
  "request_failed = [35831, 27714, 22833, 36133]"

definition processing_failed :: pystr where
  "processing_failed = [22788, 29702, 22833, 36133]"

text \<open>
  \<^verbatim>\<open>self.session.get(url, ...)\<close> is the parameter \<open>get\<close>: it returns a response or raises.
  A function that may raise returns a sum, \<open>Inl\<close> the exception. \<open>process_url_try\<close> is the
  body of the \<^verbatim>\<open>try\<close> statement (lines 79 to 94), \<open>process_url_traced\<close> the whole
  statement with its two handlers. Both carry, next to the record, the list of payloads
  handed to \<^verbatim>\<open>extract_title\<close>, in call order.
\<close>

definition process_url_try ::
  "(pystr \<Rightarrow> exn + response) \<Rightarrow> html_parser \<Rightarrow> pystr \<Rightarrow> exn + result \<times> bytes list" where
  "process_url_try get BeautifulSoup url =
     (case get url of
        Inl e \<Rightarrow> Inl e
      | Inr response \<Rightarrow>
          (let status = resp_status_code response;
               content_type = py_lower (headers_get (resp_headers response) ''content-type'' [])
           in if is_infix ''text/html'' content_type
              then Inr (\<lparr>res_url = url, res_status_code = Code status,
                         res_title = extract_title BeautifulSoup (resp_content response),
                         res_success = True\<rparr>, [resp_content response])
              else Inr (\<lparr>res_url = url, res_status_code = Code status,
                         res_title = non_html_prefix @ map of_char content_type,
                         res_success = True\<rparr>, [])))"

definition process_url_traced ::
  "(pystr \<Rightarrow> exn + response) \<Rightarrow> html_parser \<Rightarrow> pystr \<Rightarrow> exn + result \<times> bytes list" where
  "process_url_traced get BeautifulSoup url =
     (case process_url_try get BeautifulSoup url of
        Inr v \<Rightarrow> Inr v
      | Inl (RequestException e) \<Rightarrow>
          Inr (\<lparr>res_url = url, res_status_code = Marker request_failed,
                res_title = error_prefix @ e, res_success = False\<rparr>, [])
      | Inl (OtherException e) \<Rightarrow>
          Inr (\<lparr>res_url = url, res_status_code = Marker processing_failed,
                res_title = error_prefix @ e, res_success = False\<rparr>, []))"

definition process_url ::
  "(pystr \<Rightarrow> exn + response) \<Rightarrow> html_parser \<Rightarrow> pystr \<Rightarrow> exn + result" where
  "process_url get BeautifulSoup url =
     (case process_url_traced get BeautifulSoup url of Inl e \<Rightarrow> Inl e | Inr (r, _) \<Rightarrow> Inr r)"

definition extractor_calls ::
  "(pystr \<Rightarrow> exn + response) \<Rightarrow> html_parser \<Rightarrow> pystr \<Rightarrow> bytes list" where
  "extractor_calls get BeautifulSoup url =
     (case process_url_traced get BeautifulSoup url of Inl _ \<Rightarrow> [] | Inr (_, calls) \<Rightarrow> calls)"

definition contains_ci :: "string \<Rightarrow> string \<Rightarrow> bool" where
  \<comment> \<open>In the specification's words: \<open>s\<close> contains the (lower-case) string \<open>p\<close>, case
      not counting.\<close>
  "contains_ci p s \<longleftrightarrow> (\<exists>a m b. s = a @ m @ b \<and> py_lower m = p)"

section \<open>Resilient fetch client\<close>

text \<open>
  Lines 33 to 42 mount on the session an adapter whose \<^verbatim>\<open>Retry\<close> has \<^verbatim>\<open>total=retries\<close>, the
  status list 429, 500, 502, 503, 504, the methods HEAD, GET and OPTIONS, and the defaults
  of the library for the rest, among them \<^verbatim>\<open>raise_on_status=True\<close> and
  \<^verbatim>\<open>respect_retry_after_header=True\<close>. Line 79 calls \<^verbatim>\<open>session.get\<close> with
  \<^verbatim>\<open>allow_redirects=True\<close>. What the call does is library code (\<^verbatim>\<open>requests\<close> 2.32,
  \<^verbatim>\<open>urllib3\<close> 1.26); the model follows its control flow and takes from the network
  what the library cannot decide:

  \<^item> an attempt is one exchange on the wire, made by \<^verbatim>\<open>urlopen\<close>. It is answered (status
    line and headers have arrived), or broken by an error that the retry loop catches
    (a timeout, a connection, protocol or TLS error), or it ends in any other exception,
    which the loop lets through: also an error raised before the first exchange, while the
    request is prepared, and one raised by the interpreter in between;
  \<^item> after an answer that is to be retried, \<^verbatim>\<open>Retry.sleep\<close> waits: by the back-off
    schedule, which does not raise, unless the answer has a \<^verbatim>\<open>Retry-After\<close> header; then
    parsing the header or \<^verbatim>\<open>time.sleep\<close> may raise, and what happens is the parameter
    \<open>net_retry_after_sleep\<close> of the header value;
  \<^item> when the retries are used up, \<^verbatim>\<open>MaxRetryError\<close> is raised and the adapter turns it
    into a subclass of \<^verbatim>\<open>RequestException\<close>, whose text is the parameter \<open>net_describe\<close>;
  \<^item> the body of the answer that \<^verbatim>\<open>urlopen\<close> returns is read afterwards, outside the
    retry loop: \<open>ans_body\<close> is the content, or the exception the read raises;
  \<^item> an answer with a redirect status and a \<^verbatim>\<open>Location\<close> header is followed; what
    following it gives (a response or an exception) is the parameter \<open>net_follow\<close>.
\<close>

record answer =
  ans_status_code :: int
  ans_headers :: "string \<rightharpoonup> string"
  ans_body :: "exn + bytes"

datatype attempt = Answered answer | Broken pystr | Fatal exn

record network =
  net_attempt :: "nat \<Rightarrow> attempt"
  net_describe :: "attempt \<Rightarrow> pystr"
  net_retry_after_sleep :: "string \<Rightarrow> exn option"
  net_follow :: "answer \<Rightarrow> exn + response"

definition status_forcelist :: "int list" where
  "status_forcelist = [429, 500, 502, 503, 504]"

definition retry_after_status_codes :: "int list" where
  "retry_after_status_codes = [413, 429, 503]"

definition redirect_stati :: "int list" where
  "redirect_stati = [301, 302, 303, 307, 308]"

definition is_retry :: "int \<Rightarrow> answer \<Rightarrow> bool" where
  \<comment> \<open>GET is an allowed method; \<^verbatim>\<open>self.total\<close> is true when it is not 0; the header counts
      when its value is not empty\<close>
  "is_retry remaining a \<longleftrightarrow>
     ans_status_code a \<in> set status_forcelist \<or>
     (remaining \<noteq> 0 \<and> headers_get (ans_headers a) ''retry-after'' [] \<noteq> [] \<and>
      ans_status_code a \<in> set retry_after_status_codes)"

definition is_exhausted :: "int \<Rightarrow> bool" where
  \<comment> \<open>of the counters only \<^verbatim>\<open>total\<close> is set; a counter equal to 0 is filtered out
      before the minimum is compared with 0\<close>
  "is_exhausted remaining \<longleftrightarrow> remaining \<noteq> 0 \<and> remaining < 0"

definition retries_sleep :: "network \<Rightarrow> answer \<Rightarrow> exn option" where
  \<comment> \<open>\<^verbatim>\<open>retries.sleep(response)\<close>: \<open>None\<close> when it returns\<close>
  "retries_sleep net a =
     (case ans_headers a ''retry-after'' of
        None \<Rightarrow> None
      | Some v \<Rightarrow> net_retry_after_sleep net v)"

function urlopen :: "int \<Rightarrow> network \<Rightarrow> nat \<Rightarrow> exn + answer" where
  "urlopen remaining net k =
     (case net_attempt net k of
        Fatal e \<Rightarrow> Inl e
      | Broken e \<Rightarrow>
          if is_exhausted (remaining - 1)
          then Inl (RequestException (net_describe net (Broken e)))
          else urlopen (remaining - 1) net (Suc k)
      | Answered a \<Rightarrow>
          if is_retry remaining a then
            (if is_exhausted (remaining - 1)
             then Inl (RequestException (net_describe net (Answered a)))
             else (case retries_sleep net a of
                     Some e \<Rightarrow> Inl e
                   | None \<Rightarrow> urlopen (remaining - 1) net (Suc k)))
          else Inr a)"
  by pat_completeness auto
termination
  by (relation "measure (\<lambda>(remaining, net, k). nat remaining)")
     (auto simp: is_exhausted_def)

declare urlopen.simps [simp del]

definition is_redirect :: "answer \<Rightarrow> bool" where
  "is_redirect a \<longleftrightarrow>
     ans_headers a ''location'' \<noteq> None \<and> ans_status_code a \<in> set redirect_stati"

definition read_content :: "answer \<Rightarrow> exn + response" where
  \<comment> \<open>\<^verbatim>\<open>r.content\<close> at the end of \<^verbatim>\<open>Session.send\<close>\<close>
  "read_content a =
     (case ans_body a of
        Inl e \<Rightarrow> Inl e
      | Inr content \<Rightarrow>
          Inr \<lparr>resp_status_code = ans_status_code a, resp_headers = ans_headers a,
               resp_content = content\<rparr>)"

definition session_get :: "int \<Rightarrow> network \<Rightarrow> exn + response" where
  "session_get retries net =
     (case urlopen retries net 0 of
        Inl e \<Rightarrow> Inl e
      | Inr a \<Rightarrow> if is_redirect a then net_follow net a else read_content a)"

definition retryable :: "attempt \<Rightarrow> bool" where
  \<comment> \<open>an attempt the loop always retries: broken, or answered with a status of the list\<close>
  "retryable t =
     (case t of
        Broken _ \<Rightarrow> True
      | Answered a \<Rightarrow> ans_status_code a \<in> set status_forcelist
      | Fatal _ \<Rightarrow> False)"

definition wait_returns :: "network \<Rightarrow> attempt \<Rightarrow> bool" where
  \<comment> \<open>the wait after the attempt, when there is one, does not raise\<close>
  "wait_returns net t =
     (case t of
        Answered a \<Rightarrow> retries_sleep net a = None
      | Broken _ \<Rightarrow> True
      | Fatal _ \<Rightarrow> True)"

section \<open>Batch runner\<close>

text \<open>
  The program reaches its surroundings through calls that may raise, and none of those in
  \<^verbatim>\<open>process_file\<close> and \<^verbatim>\<open>main\<close> is guarded beyond what the source shows. Each is a
  parameter of the model: whether the path exists (asked once in \<^verbatim>\<open>main\<close> and once in
  \<^verbatim>\<open>process_file\<close>), what reading all lines gives under each of the two encodings,
  \<^verbatim>\<open>print\<close> on a text, \<^verbatim>\<open>time.sleep\<close> on the delay, opening the output file, writing
  a text to it, closing it, and the flush of the console when the interpreter ends. For
  a call made for its effect the parameter is \<open>None\<close> when the call returns and the
  exception when it raises. What was printed is not kept; the texts written to the output
  file are. The delay is a number the program only compares with 0 and hands to
  \<^verbatim>\<open>time.sleep\<close>: a float that is not a number behaves as one not above 0, and an
  infinite one as one at which \<^verbatim>\<open>time.sleep\<close> raises.
\<close>

fun digits :: "nat \<Rightarrow> pystr" where
  "digits n = (if n < 10 then [48 + n] else digits (n div 10) @ [48 + n mod 10])"

declare digits.simps [simp del]

definition str_int :: "int \<Rightarrow> pystr" where
  \<comment> \<open>\<^verbatim>\<open>str\<close> of a Python integer\<close>
  "str_int i = (if i < 0 then 45 # digits (nat (- i)) else digits (nat i))"

fun status_text :: "status \<Rightarrow> pystr" where
  \<comment> \<open>how an f-string renders the status: an integer or one of the two markers\<close>
  "status_text (Code n) = str_int n"
| "status_text (Marker m) = m"

definition replace_quotes :: "pystr \<Rightarrow> pystr" where
  \<comment> \<open>\<^verbatim>\<open>.replace('"', '""')\<close>\<close>
  "replace_quotes s = concat (map (\<lambda>c. if c = 34 then [34, 34] else [c]) s)"

definition csv_header :: pystr where
  \<comment> \<open>the literal of line 151\<close>
  "csv_header = [85, 82, 76, 44, 29366, 24577, 30721, 44, 26631, 39064, 10]"

definition csv_row :: "pystr \<Rightarrow> pystr \<Rightarrow> pystr \<Rightarrow> pystr" where
  \<comment> \<open>the f-string of line 173\<close>
  "csv_row url status_display title_csv =
     [34] @ url @ [34, 44, 34] @ status_display @ [34, 44, 34] @ title_csv @ [34, 10]"

datatype read_outcome = ReadLines "pystr list" | UnicodeDecodeError pystr | ReadError pystr

record os_env =
  os_exists_main :: bool
  os_exists :: bool
  os_read_utf8 :: read_outcome
  os_read_gbk :: read_outcome
  os_print :: "pystr \<Rightarrow> exn option"
  os_sleep :: "real \<Rightarrow> exn option"
  os_open :: "exn option"
  os_write :: "pystr \<Rightarrow> exn option"
  os_close :: "exn option"
  os_flush_at_exit :: bool

fun exn_text :: "exn \<Rightarrow> pystr" where
  \<comment> \<open>\<^verbatim>\<open>str(e)\<close>\<close>
  "exn_text (RequestException e) = e"
| "exn_text (OtherException e) = e"

definition and_then :: "exn option \<Rightarrow> exn + 'a \<Rightarrow> exn + 'a" where
  \<comment> \<open>a call made for its effect, then the rest of the block\<close>
  "and_then effect rest = (case effect of Some e \<Rightarrow> Inl e | None \<Rightarrow> rest)"

text \<open>The texts printed, in the order of the source (lines 114 to 185 and 202).\<close>

definition msg_missing :: "pystr \<Rightarrow> pystr" where
  "msg_missing file_path =
     [38169, 35823, 58, 32, 25991, 20214, 32, 39] @ file_path @ [39, 32, 19981, 23384, 22312]"

definition msg_unreadable :: "pystr \<Rightarrow> pystr \<Rightarrow> pystr" where
  "msg_unreadable file_path e =
     [38169, 35823, 58, 32, 26080, 27861, 35835, 21462, 25991, 20214, 32, 39] @ file_path @
     [39, 58, 32] @ e"

definition msg_invalid :: "nat \<Rightarrow> pystr \<Rightarrow> pystr" where
  "msg_invalid i stripped =
     [35686, 21578, 58, 32, 31532] @ digits i @
     [34892, 85, 82, 76, 26684, 24335, 26080, 25928, 58, 32] @ stripped"

definition msg_no_valid :: pystr where
  "msg_no_valid =
     [38169, 35823, 58, 32, 25991, 20214, 20013, 27809, 26377, 26377, 25928, 30340, 85, 82, 76]"

definition msg_found :: "nat \<Rightarrow> pystr" where
  "msg_found n =
     [25214, 21040, 32] @ digits n @
     [32, 20010, 26377, 25928, 85, 82, 76, 65292, 24320, 22987, 22788, 29702, 46, 46, 46]"

definition msg_rule :: pystr where
  "msg_rule = replicate 80 45"

definition msg_cannot_create :: "pystr \<Rightarrow> pystr \<Rightarrow> pystr" where
  "msg_cannot_create output_file e =
     [35686, 21578, 58, 32, 26080, 27861, 21019, 24314, 36755, 20986, 25991, 20214, 32, 39] @
     output_file @ [39, 58, 32] @ e"

definition msg_processing :: "nat \<Rightarrow> pystr \<Rightarrow> pystr" where
  "msg_processing line_num url = [22788, 29702, 31532] @ digits line_num @ [34892, 58, 32] @ url"

definition msg_status :: "pystr \<Rightarrow> pystr" where
  "msg_status status_display = [32, 32, 29366, 24577, 30721, 58, 32] @ status_display"

definition msg_title :: "pystr \<Rightarrow> pystr" where
  "msg_title title_display = [32, 32, 26631, 39064, 58, 32] @ title_display"

definition msg_saved :: "pystr \<Rightarrow> pystr" where
  "msg_saved output_file = [10, 32467, 26524, 24050, 20445, 23384, 21040, 58, 32] @ output_file"

definition msg_done :: "nat \<Rightarrow> nat \<Rightarrow> pystr" where
  "msg_done successful n =
     [10, 22788, 29702, 23436, 25104, 33, 32, 25104, 21151, 58, 32] @ digits successful @
     [47] @ digits n"

definition title_display_of :: "pystr \<Rightarrow> pystr" where
  \<comment> \<open>line 163\<close>
  "title_display_of t = (if length t > 100 then take 100 t @ ascii ''...'' else t)"

definition read_urls :: "os_env \<Rightarrow> pystr \<Rightarrow> exn + pystr list option" where
  \<comment> \<open>lines 117 to 127; \<open>Inr None\<close> is the \<^verbatim>\<open>return False\<close> of line 127, \<open>Inl\<close> an error of
      the first \<^verbatim>\<open>open\<close> other than a decoding error, which no handler catches, or one
      raised by \<^verbatim>\<open>print\<close>\<close>
  "read_urls env file_path =
     (case os_read_utf8 env of
        ReadLines urls \<Rightarrow> Inr (Some urls)
      | UnicodeDecodeError _ \<Rightarrow>
          (case os_read_gbk env of
             ReadLines urls \<Rightarrow> Inr (Some urls)
           | UnicodeDecodeError e \<Rightarrow>
               and_then (os_print env (msg_unreadable file_path e)) (Inr None)
           | ReadError e \<Rightarrow>
               and_then (os_print env (msg_unreadable file_path e)) (Inr None))
      | ReadError e \<Rightarrow> Inl (OtherException e))"

fun valid_urls_from :: "os_env \<Rightarrow> nat \<Rightarrow> pystr list \<Rightarrow> exn + (nat \<times> pystr) list" where
  \<comment> \<open>the loop of lines 129 to 135, \<open>i\<close> the line number\<close>
  "valid_urls_from env i [] = Inr []"
| "valid_urls_from env i (url_line # rest) =
     (case normalize_url url_line of
        Some normalized_url \<Rightarrow>
          if normalized_url \<noteq> [] then
            (case valid_urls_from env (Suc i) rest of
               Inl e \<Rightarrow> Inl e
             | Inr valid_urls \<Rightarrow> Inr ((i, normalized_url) # valid_urls))
          else and_then (os_print env (msg_invalid i (py_strip url_line)))
                 (valid_urls_from env (Suc i) rest)
      | None \<Rightarrow>
          and_then (os_print env (msg_invalid i (py_strip url_line)))
            (valid_urls_from env (Suc i) rest))"

record run =
  run_results :: "result list"
  run_output :: "pystr list option"

definition open_output :: "os_env \<Rightarrow> pystr option \<Rightarrow> exn + pystr list option" where
  \<comment> \<open>lines 147 to 153: \<open>Some\<close> the texts written when the file is open, which it stays when
      only writing the header fails\<close>
  "open_output env output_file =
     (case output_file of
        None \<Rightarrow> Inr None
      | Some name \<Rightarrow>
          if name = [] then Inr None
          else (case os_open env of
                  Some e \<Rightarrow>
                    and_then (os_print env (msg_cannot_create name (exn_text e))) (Inr None)
                | None \<Rightarrow>
                    (case os_write env csv_header of
                       Some e \<Rightarrow>
                         and_then (os_print env (msg_cannot_create name (exn_text e)))
                           (Inr (Some []))
                     | None \<Rightarrow> Inr (Some [csv_header]))))"

definition write_row :: "os_env \<Rightarrow> pystr list option \<Rightarrow> pystr \<Rightarrow> exn + pystr list option" where
  \<comment> \<open>lines 170 to 173\<close>
  "write_row env output_fh row =
     (case output_fh of
        None \<Rightarrow> Inr None
      | Some rows \<Rightarrow>
          (case os_write env row of Some e \<Rightarrow> Inl e | None \<Rightarrow> Inr (Some (rows @ [row]))))"

fun process_loop ::
  "os_env \<Rightarrow> real \<Rightarrow> (nat \<Rightarrow> pystr \<Rightarrow> exn + response) \<Rightarrow> html_parser \<Rightarrow> nat \<Rightarrow>
     (nat \<times> pystr) list \<Rightarrow> run \<Rightarrow> exn + run" where
  \<comment> \<open>the loop of lines 155 to 177; \<open>session k\<close> is \<^verbatim>\<open>session.get\<close> at its \<open>k\<close>-th call\<close>
  "process_loop env delay session BeautifulSoup k [] st = Inr st"
| "process_loop env delay session BeautifulSoup k ((line_num, url) # rest) st =
     and_then (os_print env (msg_processing line_num url))
       (case process_url (session k) BeautifulSoup url of
          Inl e \<Rightarrow> Inl e
        | Inr result \<Rightarrow>
            (let status_display = status_text (res_status_code result);
                 title_display = title_display_of (res_title result)
             in and_then (os_print env (msg_status status_display))
               (and_then (os_print env (msg_title title_display))
               (and_then (os_print env msg_rule)
               (let title_csv = replace_quotes (res_title result)
                in case write_row env (run_output st) (csv_row url status_display title_csv) of
                     Inl e \<Rightarrow> Inl e
                   | Inr output_fh \<Rightarrow>
                       and_then (if delay > 0 then os_sleep env delay else None)
                         (process_loop env delay session BeautifulSoup (Suc k) rest
                            \<lparr>run_results = run_results st @ [result],
                               run_output = output_fh\<rparr>))))))"

definition finish :: "os_env \<Rightarrow> pystr option \<Rightarrow> run \<Rightarrow> exn + bool \<times> run" where
  \<comment> \<open>lines 179 to 187\<close>
  "finish env output_file st =
     (let closed =
        (case run_output st of
           None \<Rightarrow> None
         | Some rows \<Rightarrow>
             (case os_close env of
                Some e \<Rightarrow> Some e
              | None \<Rightarrow>
                  os_print env (msg_saved (case output_file of None \<Rightarrow> [] | Some name \<Rightarrow> name))));
          successful = length (filter res_success (run_results st))
      in and_then closed
           (and_then (os_print env (msg_done successful (length (run_results st))))
              (Inr (True, st))))"

definition process_file ::
  "os_env \<Rightarrow> real \<Rightarrow> (nat \<Rightarrow> pystr \<Rightarrow> exn + response) \<Rightarrow> html_parser \<Rightarrow> pystr \<Rightarrow> pystr option
     \<Rightarrow> exn + bool \<times> run" where
  \<comment> \<open>The result is the returned flag, with the records and the texts written.\<close>
  "process_file env delay session BeautifulSoup file_path output_file =
     (if \<not> os_exists env
      then and_then (os_print env (msg_missing file_path))
             (Inr (False, \<lparr>run_results = [], run_output = None\<rparr>))
      else case read_urls env file_path of
        Inl e \<Rightarrow> Inl e
      | Inr None \<Rightarrow> Inr (False, \<lparr>run_results = [], run_output = None\<rparr>)
      | Inr (Some urls) \<Rightarrow>
          (case valid_urls_from env 1 urls of
             Inl e \<Rightarrow> Inl e
           | Inr valid_urls \<Rightarrow>
               if valid_urls = []
               then and_then (os_print env msg_no_valid)
                      (Inr (False, \<lparr>run_results = [], run_output = None\<rparr>))
               else and_then (os_print env (msg_found (length valid_urls)))
                 (and_then (os_print env msg_rule)
                 (case open_output env output_file of
                    Inl e \<Rightarrow> Inl e
                  | Inr output_fh \<Rightarrow>
                      (case process_loop env delay session BeautifulSoup 0 valid_urls
                              \<lparr>run_results = [], run_output = output_fh\<rparr> of
                         Inl e \<Rightarrow> Inl e
                       | Inr st \<Rightarrow> finish env output_file st)))))"

definition exit_status :: "os_env \<Rightarrow> nat \<Rightarrow> nat" where
  \<comment> \<open>the interpreter ends with the status asked for, or with 120 when the last flush of
      the console fails\<close>
  "exit_status env code = (if os_flush_at_exit env then code else 120)"

definition main ::
  "os_env \<Rightarrow> real \<Rightarrow> (nat \<Rightarrow> pystr \<Rightarrow> exn + response) \<Rightarrow> html_parser \<Rightarrow> pystr \<Rightarrow> pystr option
     \<Rightarrow> nat" where
  \<comment> \<open>the exit status of the process: \<^verbatim>\<open>sys.exit(1)\<close>, an uncaught exception (status 1
      as well), or falling off the end (status 0)\<close>
  "main env delay session BeautifulSoup file_path output_file =
     exit_status env
       (if \<not> os_exists_main env
        then (case os_print env (msg_missing file_path) of Some e \<Rightarrow> 1 | None \<Rightarrow> 1)
        else case process_file env delay session BeautifulSoup file_path output_file of
          Inl e \<Rightarrow> 1
        | Inr (success, st) \<Rightarrow> if \<not> success then 1 else 0)"

definition quiet :: "os_env \<Rightarrow> real \<Rightarrow> bool" where
  \<comment> \<open>no call made for its effect raises: printing, sleeping for the delay when it is
      above 0, writing to the output file, closing it, the last flush of the console\<close>
  "quiet env delay \<longleftrightarrow>
     (\<forall>t. os_print env t = None) \<and> (0 < delay \<longrightarrow> os_sleep env delay = None) \<and>
     (\<forall>t. os_write env t = None) \<and> os_close env = None \<and> os_flush_at_exit env"

section \<open>Reading a CSV record back\<close>

text \<open>
  What a standard CSV reader (RFC 4180) makes of one written row, to state whether a row
  is parseable. A record is a list of fields separated by commas and ended by a line
  break or by the end of the input. A field is quoted, and then a double quote inside it
  is written twice, or plain, and then holds no double quote, comma or line break.
\<close>

fun read_quoted :: "pystr \<Rightarrow> (pystr \<times> pystr) option" where
  \<comment> \<open>after the opening quote: the field, and the input after the closing quote\<close>
  "read_quoted [] = None"
| "read_quoted [c] = (if c = 34 then Some ([], []) else None)"
| "read_quoted (c # d # cs) =
     (if c = 34 then
        (if d = 34 then
           (case read_quoted cs of None \<Rightarrow> None | Some (f, rest) \<Rightarrow> Some (34 # f, rest))
         else Some ([], d # cs))
      else (case read_quoted (d # cs) of None \<Rightarrow> None | Some (f, rest) \<Rightarrow> Some (c # f, rest)))"

fun read_plain :: "pystr \<Rightarrow> (pystr \<times> pystr) option" where
  "read_plain [] = Some ([], [])"
| "read_plain (c # cs) =
     (if c = 44 \<or> c = 10 \<or> c = 13 then Some ([], c # cs)
      else if c = 34 then None
      else (case read_plain cs of None \<Rightarrow> None | Some (f, rest) \<Rightarrow> Some (c # f, rest)))"

fun read_field :: "pystr \<Rightarrow> (pystr \<times> pystr) option" where
  "read_field [] = read_plain []"
| "read_field (c # cs) = (if c = 34 then read_quoted cs else read_plain (c # cs))"

lemma read_quoted_length: "read_quoted inp = Some (f, rest) \<Longrightarrow> length rest \<le> length inp"
  by (induction inp arbitrary: f rest rule: read_quoted.induct)
     (fastforce split: if_splits option.splits)+

lemma read_plain_length: "read_plain inp = Some (f, rest) \<Longrightarrow> length rest \<le> length inp"
  by (induction inp arbitrary: f rest) (fastforce split: if_splits option.splits)+

lemma read_field_length: "read_field inp = Some (f, rest) \<Longrightarrow> length rest \<le> length inp"
  by (cases inp)
     (auto simp del: read_plain.simps read_quoted.simps split: if_splits
        dest: read_quoted_length read_plain_length)

function csv_fields :: "pystr \<Rightarrow> pystr list option" where
  "csv_fields inp =
     (case read_field inp of
        None \<Rightarrow> None
      | Some (f, rest) \<Rightarrow>
          if rest = [] \<or> rest = [10] \<or> rest = [13, 10] then Some [f]
          else if hd rest = 44 then
            (case csv_fields (tl rest) of None \<Rightarrow> None | Some fs \<Rightarrow> Some (f # fs))
          else None)"
  by pat_completeness auto
termination
proof (relation "measure length")
  show "wf (measure length)"
    by simp
next
  fix inp x2 f rest
  assume "read_field inp = Some x2" "(f, rest) = x2" "\<not> (rest = [] \<or> rest = [10] \<or> rest = [13, 10])"
  then have "length rest \<le> length inp" "rest \<noteq> []"
    by (auto dest: read_field_length)
  then show "(tl rest, inp) \<in> measure length"
    by (cases rest) auto
qed

declare csv_fields.simps [simp del]

section \<open>Properties of the URL normaliser\<close>

lemma tld_here_iff:
  "tld_here t \<longleftrightarrow> (\<exists>a b r. t = 46 # a # b # r \<and> is_alpha a \<and> is_alpha b)"
  by (cases t rule: tld_here.cases) auto

lemma backtrack_iff:
  "backtrack s n \<longleftrightarrow> (\<exists>k. 1 \<le> k \<and> k \<le> n \<and> tld_here (drop k s))"
proof (induction n)
  case 0
  show ?case by simp
next
  case (Suc n)
  have "(\<exists>k. 1 \<le> k \<and> k \<le> Suc n \<and> tld_here (drop k s)) \<longleftrightarrow>
        tld_here (drop (Suc n) s) \<or> (\<exists>k. 1 \<le> k \<and> k \<le> n \<and> tld_here (drop k s))"
    by (metis le_Suc_eq le_add1 plus_1_eq_Suc)
  with Suc show ?case by simp
qed

lemma takeWhile_all_prefix:
  "list_all P p \<Longrightarrow> length p \<le> length (takeWhile P (p @ x))"
  by (induction p) auto

lemma take_le_takeWhile:
  "k \<le> length (takeWhile P s) \<Longrightarrow> list_all P (take k s)"
proof (induction s arbitrary: k)
  case Nil
  show ?case by simp
next
  case (Cons c s)
  then show ?case by (cases k) (auto split: if_splits)
qed

lemma re_match_domain_iff: "re_match_domain s \<longleftrightarrow> domain_shape s"
proof
  assume "re_match_domain s"
  then obtain k where k: "1 \<le> k" "k \<le> length (takeWhile is_domain_char s)"
      and t: "tld_here (drop k s)"
    by (auto simp: re_match_domain_def backtrack_iff)
  from t obtain a b r where d: "drop k s = 46 # a # b # r" and ab: "is_alpha a" "is_alpha b"
    by (auto simp: tld_here_iff)
  have "s = take k s @ [46] @ [a, b] @ r"
    using d by (metis append_Cons append_Nil append_take_drop_id)
  moreover have "take k s \<noteq> []"
  proof
    assume "take k s = []"
    then have "k = 0 \<or> s = []" by simp
    with k(1) d show False by auto
  qed
  moreover have "list_all is_domain_char (take k s)"
    using k(2) by (rule take_le_takeWhile)
  ultimately show "domain_shape s"
    unfolding domain_shape_def using ab
    by (intro exI [of _ "take k s"] exI [of _ "[a, b]"] exI [of _ r]) simp
next
  assume "domain_shape s"
  then obtain p t r where s: "s = p @ [46] @ t @ r" and p: "p \<noteq> []" "list_all is_domain_char p"
      and t: "2 \<le> length t" "list_all is_alpha t"
    by (auto simp: domain_shape_def)
  from t obtain a b t' where t': "t = a # b # t'"
    by (cases t; cases "tl t") auto
  have "length p \<le> length (takeWhile is_domain_char s)"
    unfolding s using p(2) by (rule takeWhile_all_prefix)
  moreover have "1 \<le> length p"
    using p(1) by (cases p) auto
  moreover have "tld_here (drop (length p) s)"
    using t t' by (simp add: s)
  ultimately show "re_match_domain s"
    unfolding re_match_domain_def backtrack_iff by blast
qed

lemma dropWhile_all: "list_all P xs \<Longrightarrow> dropWhile P xs = []"
  by (induction xs) auto

lemma py_strip_all_space: "list_all py_isspace s \<Longrightarrow> py_strip s = []"
  by (simp add: py_strip_def py_lstrip_def py_rstrip_def dropWhile_all)

lemma normalize_url_cases:
  "normalize_url line =
     (let s = py_strip line in
      if s = [] then None
      else if startswith s http_scheme \<or> startswith s https_scheme then Some s
      else if domain_shape s then Some (https_scheme @ s)
      else None)"
  by (simp add: normalize_url_def Let_def re_match_domain_iff)

lemmas normalize_eval =
  normalize_url_def py_strip_def py_lstrip_def py_rstrip_def py_isspace_def startswith_def
  http_scheme_def https_scheme_def ascii_def re_match_domain_def is_domain_char_def
  is_alpha_def Let_def

lemma normalize_url_examples:
  "normalize_url (ascii ''example.com'') = Some (ascii ''https://example.com'')"
  "normalize_url (ascii ''http://x.io'') = Some (ascii ''http://x.io'')"
  "normalize_url (ascii ''not a url!!'') = None"
  "normalize_url [] = None"
  by (simp_all add: normalize_eval)

text \<open>
  C4. For every input line, \<open>normalize_url\<close> trims the surrounding whitespace and then:
  yields nothing on an empty (so also on a whitespace-only) line; returns the trimmed line
  as it is when it starts with \<^verbatim>\<open>http://\<close> or \<^verbatim>\<open>https://\<close>; prepends \<^verbatim>\<open>https://\<close> when
  the trimmed line has the domain shape (one or more characters of \<^verbatim>\<open>[a-zA-Z0-9.-]\<close>, a
  dot, at least two letters, anchored at the start); yields nothing otherwise. The four
  examples of the specification evaluate as stated.
\<close>

theorem normalize_url_contract:
  "normalize_url line =
     (let s = py_strip line in
      if s = [] then None
      else if startswith s http_scheme \<or> startswith s https_scheme then Some s
      else if domain_shape s then Some (https_scheme @ s)
      else None)
   \<and> (list_all py_isspace line \<longrightarrow> normalize_url line = None)
   \<and> normalize_url (ascii ''example.com'') = Some (ascii ''https://example.com'')
   \<and> normalize_url (ascii ''http://x.io'') = Some (ascii ''http://x.io'')
   \<and> normalize_url (ascii ''not a url!!'') = None
   \<and> normalize_url [] = None"
  using normalize_url_cases [of line] normalize_url_examples
  by (simp add: py_strip_all_space)

theorem normalize_url_contract_witness:
  "list_all py_isspace [32, 9, 12288, 10] \<and> normalize_url [32, 9, 12288, 10] = None
   \<and> domain_shape (py_strip (ascii '' sub.example.org/x ''))
   \<and> normalize_url (ascii '' sub.example.org/x '') = Some (ascii ''https://sub.example.org/x'')"
proof -
  have sp: "list_all py_isspace [32, 9, 12288, 10]"
    by (simp add: py_isspace_def)
  have ev: "normalize_url (ascii '' sub.example.org/x '') = Some (ascii ''https://sub.example.org/x'')"
    by (simp add: normalize_eval)
  have st: "py_strip (ascii '' sub.example.org/x '') = ascii ''sub.example.org/x''"
    by (simp add: normalize_eval)
  have ns: "\<not> startswith (ascii ''sub.example.org/x'') http_scheme"
           "\<not> startswith (ascii ''sub.example.org/x'') https_scheme"
           "ascii ''sub.example.org/x'' \<noteq> []"
    by (simp_all add: normalize_eval)
  from normalize_url_contract [of "ascii '' sub.example.org/x ''"] ev st ns
  have "domain_shape (py_strip (ascii '' sub.example.org/x ''))"
    by (simp add: Let_def split: if_splits)
  moreover from normalize_url_contract [of "[32, 9, 12288, 10]"] sp
  have "normalize_url [32, 9, 12288, 10] = None"
    by blast
  ultimately show ?thesis
    using sp ev by blast
qed

text \<open>
  C8. For every input line whose trimmed form starts with \<^verbatim>\<open>http://\<close> or \<^verbatim>\<open>https://\<close>,
  \<open>normalize_url\<close> returns exactly the trimmed form, with no further validation: the
  surrounding whitespace is removed, and the bare string \<^verbatim>\<open>https://\<close> is accepted and
  returned as it is.
\<close>

theorem normalize_url_scheme_passthrough:
  "(startswith (py_strip line) http_scheme \<or> startswith (py_strip line) https_scheme
      \<longrightarrow> normalize_url line = Some (py_strip line))
   \<and> normalize_url https_scheme = Some https_scheme
   \<and> normalize_url (ascii ''  https://  '') = Some (ascii ''https://'')"
proof -
  have "py_strip line \<noteq> []"
    if "startswith (py_strip line) http_scheme \<or> startswith (py_strip line) https_scheme"
    using that by (auto simp: startswith_def http_scheme_def https_scheme_def ascii_def)
  moreover have "normalize_url https_scheme = Some https_scheme"
    by (simp add: normalize_eval)
  moreover have "normalize_url (ascii ''  https://  '') = Some (ascii ''https://'')"
    by (simp add: normalize_eval)
  ultimately show ?thesis
    by (auto simp: normalize_url_def Let_def)
qed

theorem normalize_url_scheme_passthrough_witness:
  "startswith (py_strip (ascii ''  http://a b  '')) http_scheme
   \<and> normalize_url (ascii ''  http://a b  '') = Some (ascii ''http://a b'')"
proof -
  have st: "py_strip (ascii ''  http://a b  '') = ascii ''http://a b''"
    by (simp add: normalize_eval)
  have sw: "startswith (ascii ''http://a b'') http_scheme"
    by (simp add: normalize_eval)
  from normalize_url_scheme_passthrough [of "ascii ''  http://a b  ''"] st sw show ?thesis
    by simp
qed

section \<open>Properties of the title extractor\<close>

lemma find_append_cases:
  "List.find P (xs @ ys) = (case List.find P xs of Some x \<Rightarrow> Some x | None \<Rightarrow> List.find P ys)"
  by (induction xs) auto

lemma find_node_preorder:
  "find_node name x = List.find (is_tag_named name) (preorder x)"
  "find_nodes name xs = List.find (is_tag_named name) (preorders xs)"
  by (induction name x and name xs rule: find_node_find_nodes.induct)
     (auto simp: find_append_cases split: option.splits)

lemma extract_title_cases:
  "extract_title BeautifulSoup html =
     (case BeautifulSoup html of
        Inl e \<Rightarrow> title_failed_prefix @ e
      | Inr soup \<Rightarrow>
          (case List.find (is_tag_named (ascii ''title'')) (preorders soup) of
             Some t \<Rightarrow> py_strip (get_text t)
           | None \<Rightarrow> no_title))"
  by (simp add: extract_title_def find_node_preorder split: sum.splits)

text \<open>
  C5. For every payload, \<open>extract_title\<close> returns the whitespace-trimmed text of the
  first title element in document order; the fixed placeholder when the document has no
  title element; and, when parsing raises, the failure prefix followed by the text of the
  exception, the exception itself going no further.
\<close>

theorem extract_title_contract:
  "(BeautifulSoup html = Inr soup \<and>
      List.find (is_tag_named (ascii ''title'')) (preorders soup) = Some t
      \<longrightarrow> extract_title BeautifulSoup html = py_strip (get_text t))
   \<and> (BeautifulSoup html = Inr soup \<and>
      List.find (is_tag_named (ascii ''title'')) (preorders soup) = None
      \<longrightarrow> extract_title BeautifulSoup html = no_title)
   \<and> (BeautifulSoup html = Inl e
      \<longrightarrow> extract_title BeautifulSoup html = title_failed_prefix @ e)"
  by (simp add: extract_title_cases)

theorem extract_title_contract_witness:
  "extract_title (\<lambda>_. Inr [Tag (ascii ''html'') [Tag (ascii ''head'')
       [Tag (ascii ''title'') [Str NavigableString (ascii '' Hi '')]]]]) [] = ascii ''Hi''
   \<and> extract_title (\<lambda>_. Inr [Str Doctype (ascii ''html''),
       Tag (ascii ''title'') [Str NavigableString (ascii ''a''),
         Tag (ascii ''script'') [Str Script (ascii ''b'')], Str Comment (ascii ''x''),
         Str CData (ascii ''c '')],
       Tag (ascii ''title'') [Str NavigableString (ascii ''second'')]]) [] = ascii ''ac''
   \<and> extract_title (\<lambda>_. Inr [Tag (ascii ''p'') [Str NavigableString (ascii ''x'')]]) [] = no_title
   \<and> extract_title (\<lambda>_. Inl (ascii ''boom'')) [] = title_failed_prefix @ ascii ''boom''"
proof -
  let ?t = "Tag (ascii ''title'') [Str NavigableString (ascii '' Hi '')]"
  let ?doc = "[Tag (ascii ''html'') [Tag (ascii ''head'') [?t]]]"
  let ?t2 = "Tag (ascii ''title'') [Str NavigableString (ascii ''a''),
      Tag (ascii ''script'') [Str Script (ascii ''b'')], Str Comment (ascii ''x''),
      Str CData (ascii ''c '')]"
  let ?doc2 = "[Str Doctype (ascii ''html''), ?t2,
      Tag (ascii ''title'') [Str NavigableString (ascii ''second'')]]"
  let ?p = "(\<lambda>_. Inr ?doc) :: html_parser"
  let ?p2 = "(\<lambda>_. Inr ?doc2) :: html_parser"
  let ?q = "(\<lambda>_. Inr [Tag (ascii ''p'') [Str NavigableString (ascii ''x'')]]) :: html_parser"
  let ?r = "(\<lambda>_. Inl (ascii ''boom'')) :: html_parser"
  have h1: "?p [] = Inr ?doc \<and> List.find (is_tag_named (ascii ''title'')) (preorders ?doc) = Some ?t"
    by (simp add: ascii_def)
  have s1: "py_strip (get_text ?t) = ascii ''Hi''"
    by (simp add: normalize_eval)
  have h1': "?p2 [] = Inr ?doc2 \<and>
      List.find (is_tag_named (ascii ''title'')) (preorders ?doc2) = Some ?t2"
    by (simp add: ascii_def)
  have s1': "py_strip (get_text ?t2) = ascii ''ac''"
    by (simp add: normalize_eval)
  have h2: "?q [] = Inr [Tag (ascii ''p'') [Str NavigableString (ascii ''x'')]] \<and>
      List.find (is_tag_named (ascii ''title''))
        (preorders [Tag (ascii ''p'') [Str NavigableString (ascii ''x'')]]) = None"
    by (simp add: ascii_def)
  have h3: "?r [] = Inl (ascii ''boom'')"
    by simp
  from extract_title_contract [of ?p "[]" ?doc ?t] h1 s1
  have "extract_title ?p [] = ascii ''Hi''"
    by metis
  moreover from extract_title_contract [of ?p2 "[]" ?doc2 ?t2] h1' s1'
  have "extract_title ?p2 [] = ascii ''ac''"
    by metis
  moreover from extract_title_contract
    [of ?q "[]" "[Tag (ascii ''p'') [Str NavigableString (ascii ''x'')]]"] h2
  have "extract_title ?q [] = no_title"
    by blast
  moreover from extract_title_contract [of ?r "[]" _ _ "ascii ''boom''"] h3
  have "extract_title ?r [] = title_failed_prefix @ ascii ''boom''"
    by blast
  ultimately show ?thesis
    by blast
qed

text \<open>
  C9, as the claim states it, fails in its first half: a document whose title element has
  the placeholder itself as text has a title element, and \<open>extract_title\<close> returns the
  placeholder.
\<close>

theorem placeholder_title_counterexample:
  "find_nodes (ascii ''title'') [Tag (ascii ''title'') [Str NavigableString no_title]]
     = Some (Tag (ascii ''title'') [Str NavigableString no_title])
   \<and> extract_title (\<lambda>_. Inr [Tag (ascii ''title'') [Str NavigableString no_title]]) []
     = no_title"
  by (simp add: extract_title_def no_title_def py_strip_def py_lstrip_def py_rstrip_def
      py_isspace_def)

lemma failure_text_not_placeholder: "title_failed_prefix @ e \<noteq> no_title"
  by (simp add: title_failed_prefix_def no_title_def)

text \<open>
  C9, amended. \<open>extract_title\<close> returns the placeholder exactly when the document has no
  title element, or has one whose trimmed text is the placeholder itself. Whenever the
  document has a title element the result is the trimmed text of the first one; so for a
  first title element whose text is empty or whitespace only it is the empty string,
  which is not the placeholder.
\<close>

theorem placeholder_iff_no_title:
  "(extract_title BeautifulSoup html = no_title \<longleftrightarrow>
      (\<exists>soup. BeautifulSoup html = Inr soup \<and>
         (find_nodes (ascii ''title'') soup = None \<or>
          (\<exists>t. find_nodes (ascii ''title'') soup = Some t \<and> py_strip (get_text t) = no_title))))
   \<and> (BeautifulSoup html = Inr soup \<and> find_nodes (ascii ''title'') soup = Some t
      \<longrightarrow> extract_title BeautifulSoup html = py_strip (get_text t))
   \<and> (BeautifulSoup html = Inr soup \<and> find_nodes (ascii ''title'') soup = Some t \<and>
       list_all py_isspace (get_text t)
      \<longrightarrow> extract_title BeautifulSoup html = [] \<and> extract_title BeautifulSoup html \<noteq> no_title)
   \<and> (BeautifulSoup html = Inr soup \<and> find_nodes (ascii ''title'') soup = None
      \<longrightarrow> extract_title BeautifulSoup html = no_title)"
proof -
  have "extract_title BeautifulSoup html = no_title \<longleftrightarrow>
      (\<exists>soup. BeautifulSoup html = Inr soup \<and>
         (find_nodes (ascii ''title'') soup = None \<or>
          (\<exists>t. find_nodes (ascii ''title'') soup = Some t \<and> py_strip (get_text t) = no_title)))"
    by (auto simp: extract_title_def failure_text_not_placeholder split: sum.splits option.splits)
  moreover have "[] \<noteq> no_title"
    by (simp add: no_title_def)
  ultimately show ?thesis
    by (simp add: extract_title_def py_strip_all_space)
qed

theorem placeholder_iff_no_title_witness:
  "extract_title (\<lambda>_. Inr [Tag (ascii ''title'') [Str NavigableString [32, 10, 9]],
       Tag (ascii ''title'') [Str NavigableString (ascii ''second'')]]) [] = []
   \<and> extract_title (\<lambda>_. Inr [Tag (ascii ''title'') [Tag (ascii ''script'')
       [Str Script (ascii ''x'')]]]) [] \<noteq> no_title
   \<and> extract_title (\<lambda>_. Inr [Str Comment (ascii ''title'')]) [] = no_title"
proof -
  let ?t = "Tag (ascii ''title'') [Str NavigableString [32, 10, 9]]"
  let ?doc = "[?t, Tag (ascii ''title'') [Str NavigableString (ascii ''second'')]]"
  let ?p = "(\<lambda>_. Inr ?doc) :: html_parser"
  let ?e = "Tag (ascii ''title'') [Tag (ascii ''script'') [Str Script (ascii ''x'')]]"
  let ?q = "(\<lambda>_. Inr [?e]) :: html_parser"
  let ?r = "(\<lambda>_. Inr [Str Comment (ascii ''title'')]) :: html_parser"
  have h1: "?p [] = Inr ?doc \<and> find_nodes (ascii ''title'') ?doc = Some ?t \<and>
      list_all py_isspace (get_text ?t)"
    by (simp add: py_isspace_def)
  have h2: "?q [] = Inr [?e] \<and> find_nodes (ascii ''title'') [?e] = Some ?e \<and>
      list_all py_isspace (get_text ?e)"
    by simp
  have h3: "?r [] = Inr [Str Comment (ascii ''title'')] \<and>
      find_nodes (ascii ''title'') [Str Comment (ascii ''title'')] = None"
    by simp
  from placeholder_iff_no_title [of ?p "[]" ?doc ?t] h1
  have "extract_title ?p [] = []"
    by blast
  moreover from placeholder_iff_no_title [of ?q "[]" "[?e]" ?e] h2
  have "extract_title ?q [] \<noteq> no_title"
    by blast
  moreover from placeholder_iff_no_title [of ?r "[]" "[Str Comment (ascii ''title'')]"] h3
  have "extract_title ?r [] = no_title"
    by blast
  ultimately show ?thesis
    by blast
qed

section \<open>Properties of the per-URL processor\<close>

lemma take_eq_iff_prefix: "take (length p) s = p \<longleftrightarrow> (\<exists>b. s = p @ b)"
  by (metis append_eq_conv_conj append_take_drop_id)

lemma is_infix_iff: "is_infix p s \<longleftrightarrow> (\<exists>a b. s = a @ p @ b)"
proof (induction s)
  case Nil
  show ?case by auto
next
  case (Cons c cs)
  have "(\<exists>a b. c # cs = a @ p @ b) \<longleftrightarrow> (\<exists>b. c # cs = p @ b) \<or> (\<exists>a b. cs = a @ p @ b)"
  proof
    assume "\<exists>a b. c # cs = a @ p @ b"
    then obtain a b where ab: "c # cs = a @ p @ b" by blast
    show "(\<exists>b. c # cs = p @ b) \<or> (\<exists>a b. cs = a @ p @ b)"
    proof (cases a)
      case Nil
      with ab show ?thesis by auto
    next
      case (Cons x a')
      with ab have "cs = a' @ p @ b" by simp
      then show ?thesis by blast
    qed
  next
    assume "(\<exists>b. c # cs = p @ b) \<or> (\<exists>a b. cs = a @ p @ b)"
    then show "\<exists>a b. c # cs = a @ p @ b"
    proof
      assume "\<exists>b. c # cs = p @ b"
      then show ?thesis by (metis append_Nil)
    next
      assume "\<exists>a b. cs = a @ p @ b"
      then obtain a b where "cs = a @ p @ b" by blast
      then have "c # cs = (c # a) @ p @ b" by simp
      then show ?thesis by blast
    qed
  qed
  with Cons show ?case
    by (simp only: is_infix.simps take_eq_iff_prefix)
qed

lemma process_url_traced_cases:
  "process_url_traced get BeautifulSoup u =
     (case get u of
        Inr response \<Rightarrow>
          if is_infix ''text/html'' (py_lower (headers_get (resp_headers response) ''content-type'' []))
          then Inr (\<lparr>res_url = u, res_status_code = Code (resp_status_code response),
                     res_title = extract_title BeautifulSoup (resp_content response),
                     res_success = True\<rparr>, [resp_content response])
          else Inr (\<lparr>res_url = u, res_status_code = Code (resp_status_code response),
                     res_title = non_html_prefix @
                       map of_char (py_lower (headers_get (resp_headers response) ''content-type'' [])),
                     res_success = True\<rparr>, [])
      | Inl (RequestException e) \<Rightarrow>
          Inr (\<lparr>res_url = u, res_status_code = Marker request_failed,
                res_title = error_prefix @ e, res_success = False\<rparr>, [])
      | Inl (OtherException e) \<Rightarrow>
          Inr (\<lparr>res_url = u, res_status_code = Marker processing_failed,
                res_title = error_prefix @ e, res_success = False\<rparr>, []))"
  by (simp add: process_url_traced_def process_url_try_def Let_def split: sum.splits exn.splits)

text \<open>
  C3. \<open>process_url\<close> never raises: for every URL and every outcome of the fetch (a response,
  a request exception, any other exception) it returns a record, and that record is
  about the URL it was given.
\<close>

theorem process_url_never_raises:
  "\<exists>r. process_url get BeautifulSoup u = Inr r \<and> res_url r = u"
  by (simp add: process_url_def process_url_traced_cases split: sum.splits exn.splits)

lemma is_infix_lower_iff: "is_infix p (py_lower s) \<longleftrightarrow> contains_ci p s"
proof -
  have "(\<exists>a b. map lower_char s = a @ p @ b) \<longleftrightarrow> (\<exists>a m b. s = a @ m @ b \<and> map lower_char m = p)"
    by (auto simp: map_eq_append_conv append_eq_map_conv) blast+
  then show ?thesis
    by (simp add: is_infix_iff contains_ci_def py_lower_def)
qed

text \<open>
  C6. When the fetch returns a response, \<open>extract_title\<close> is called (once, on the response
  body) if and only if the \<^verbatim>\<open>content-type\<close> header contains \<^verbatim>\<open>text/html\<close>, case not
  counting; the title is then what it returns. Otherwise it is not called and the title
  is the non-HTML prefix followed by the lower-cased header value (the empty string when
  the header is missing).
\<close>

theorem content_type_gate:
  "get u = Inr resp \<longrightarrow>
     (extractor_calls get BeautifulSoup u = [resp_content resp]
        \<longleftrightarrow> contains_ci ''text/html'' (headers_get (resp_headers resp) ''content-type'' []))
     \<and> (contains_ci ''text/html'' (headers_get (resp_headers resp) ''content-type'' []) \<longrightarrow>
          (\<exists>r. process_url get BeautifulSoup u = Inr r \<and>
               res_title r = extract_title BeautifulSoup (resp_content resp)))
     \<and> (\<not> contains_ci ''text/html'' (headers_get (resp_headers resp) ''content-type'' []) \<longrightarrow>
          extractor_calls get BeautifulSoup u = [] \<and>
          (\<exists>r. process_url get BeautifulSoup u = Inr r \<and>
               res_title r = non_html_prefix @
                 map of_char (py_lower (headers_get (resp_headers resp) ''content-type'' []))))"
  by (simp add: extractor_calls_def process_url_def process_url_traced_cases
      is_infix_lower_iff [symmetric])

lemma py_lower_examples:
  "py_lower ''Text/HTML; charset=UTF-8'' = ''text/html; charset=utf-8''"
  "py_lower ''Application/JSON'' = ''application/json''"
  by (simp_all add: py_lower_def lower_char_def Let_def char_of_def bit_0)

theorem content_type_gate_witness:
  "extractor_calls
      (\<lambda>_. Inr \<lparr>resp_status_code = 200,
                 resp_headers = [''content-type'' \<mapsto> ''Text/HTML; charset=UTF-8''],
                 resp_content = ''<title>x</title>''\<rparr>)
      (\<lambda>_. Inr []) (ascii ''http://x.io'') = [''<title>x</title>'']
   \<and> extractor_calls
      (\<lambda>_. Inr \<lparr>resp_status_code = 200,
                 resp_headers = [''content-type'' \<mapsto> ''Application/JSON''],
                 resp_content = ''{}''\<rparr>)
      (\<lambda>_. Inr []) (ascii ''http://x.io'') = []
   \<and> (\<exists>r. process_url
      (\<lambda>_. Inr \<lparr>resp_status_code = 200,
                 resp_headers = [''content-type'' \<mapsto> ''Application/JSON''],
                 resp_content = ''{}''\<rparr>)
      (\<lambda>_. Inr []) (ascii ''http://x.io'') = Inr r \<and>
      res_title r = non_html_prefix @ ascii ''application/json'')"
proof -
  let ?html = "\<lparr>resp_status_code = 200,
      resp_headers = [''content-type'' \<mapsto> ''Text/HTML; charset=UTF-8''],
      resp_content = ''<title>x</title>''\<rparr>"
  let ?json = "\<lparr>resp_status_code = 200,
      resp_headers = [''content-type'' \<mapsto> ''Application/JSON''],
      resp_content = ''{}''\<rparr>"
  let ?g = "(\<lambda>_. Inr ?html) :: pystr \<Rightarrow> exn + response"
  let ?h = "(\<lambda>_. Inr ?json) :: pystr \<Rightarrow> exn + response"
  let ?bs = "(\<lambda>_. Inr []) :: html_parser"
  let ?u = "ascii ''http://x.io''"
  have g: "?g ?u = Inr ?html" and h: "?h ?u = Inr ?json"
    by simp_all
  have cg: "contains_ci ''text/html'' (headers_get (resp_headers ?html) ''content-type'' [])"
    unfolding is_infix_lower_iff [symmetric]
    by (simp add: headers_get_def py_lower_examples)
  have ch: "\<not> contains_ci ''text/html'' (headers_get (resp_headers ?json) ''content-type'' [])"
    unfolding is_infix_lower_iff [symmetric]
    by (simp add: headers_get_def py_lower_examples)
  have lj: "map of_char (py_lower (headers_get (resp_headers ?json) ''content-type'' []))
      = ascii ''application/json''"
    by (simp add: headers_get_def py_lower_examples ascii_def)
  from content_type_gate [of ?g ?u ?html ?bs] g cg
  have "extractor_calls ?g ?bs ?u = [resp_content ?html]"
    by blast
  then have "extractor_calls ?g ?bs ?u = [''<title>x</title>'']"
    by simp
  moreover from content_type_gate [of ?h ?u ?json ?bs] h ch
  have "extractor_calls ?h ?bs ?u = [] \<and>
      (\<exists>r. process_url ?h ?bs ?u = Inr r \<and> res_title r = non_html_prefix @
         map of_char (py_lower (headers_get (resp_headers ?json) ''content-type'' [])))"
    by blast
  ultimately show ?thesis
    unfolding lj by blast
qed

lemma process_url_returns: "\<exists>r. process_url get BeautifulSoup u = Inr r"
  by (simp add: process_url_def process_url_traced_cases split: sum.splits exn.splits)

section \<open>Properties of the fetch client\<close>

lemma urlopen_exhausts:
  "n = nat remaining \<Longrightarrow> (\<And>j. j \<le> n \<Longrightarrow> retryable (net_attempt net (k + j))) \<Longrightarrow>
   (\<And>j. j < n \<Longrightarrow> wait_returns net (net_attempt net (k + j))) \<Longrightarrow>
   urlopen remaining net k = Inl (RequestException (net_describe net (net_attempt net (k + n))))"
proof (induction n arbitrary: remaining k)
  case 0
  then have t: "remaining \<le> 0" by simp
  from "0.prems"(2) [of 0] have "retryable (net_attempt net k)" by simp
  with t show ?case
    by (subst urlopen.simps)
       (auto simp: retryable_def is_retry_def is_exhausted_def split: attempt.splits)
next
  case (Suc n)
  then have t: "0 \<le> remaining - 1" "n = nat (remaining - 1)" by simp_all
  have later: "retryable (net_attempt net (Suc k + j))" if "j \<le> n" for j
    using Suc.prems(2) [of "Suc j"] that by simp
  have waits: "wait_returns net (net_attempt net (Suc k + j))" if "j < n" for j
    using Suc.prems(3) [of "Suc j"] that by simp
  have ih: "urlopen (remaining - 1) net (Suc k)
      = Inl (RequestException (net_describe net (net_attempt net (Suc k + n))))"
    by (rule Suc.IH [OF t(2) later waits])
  from Suc.prems(2) [of 0] have r: "retryable (net_attempt net k)" by simp
  from Suc.prems(3) [of 0] have w: "wait_returns net (net_attempt net k)" by simp
  from t(1) ih r w show ?case
    by (subst urlopen.simps)
       (auto simp: retryable_def wait_returns_def is_retry_def is_exhausted_def
          split: attempt.splits)
qed

lemma urlopen_returns_unforced:
  "urlopen remaining net k = Inr a \<Longrightarrow> ans_status_code a \<notin> set status_forcelist"
proof (induction remaining net k rule: urlopen.induct)
  case (1 remaining net k)
  from "1.prems" show ?case
    by (subst (asm) urlopen.simps)
       (auto simp: is_retry_def split: attempt.splits if_splits option.splits dest: "1.IH")
qed

lemma urlopen_503_503_200:
  assumes "net_attempt net 0 = Answered a0" "ans_status_code a0 = 503" "retries_sleep net a0 = None"
    and "net_attempt net 1 = Answered a1" "ans_status_code a1 = 503" "retries_sleep net a1 = None"
    and "net_attempt net 2 = Answered a2" "ans_status_code a2 = 200"
  shows "urlopen 3 net 0 = Inr a2"
proof -
  have "urlopen 1 net 2 = Inr a2"
    using assms(7,8)
    by (subst urlopen.simps)
       (simp add: is_retry_def status_forcelist_def retry_after_status_codes_def numeral_2_eq_2)
  then have "urlopen 2 net 1 = Inr a2"
    using assms(4,5,6)
    by (subst urlopen.simps)
       (simp add: is_retry_def status_forcelist_def is_exhausted_def numeral_2_eq_2)
  then show ?thesis
    using assms(1,2,3)
    by (subst urlopen.simps)
       (simp add: is_retry_def status_forcelist_def is_exhausted_def)
qed

lemma session_get_exhausts:
  assumes "\<forall>j\<le>nat retries. retryable (net_attempt net j)"
    and "\<forall>j<nat retries. wait_returns net (net_attempt net j)"
  shows "session_get retries net
      = Inl (RequestException (net_describe net (net_attempt net (nat retries))))"
proof -
  have "urlopen retries net 0
      = Inl (RequestException (net_describe net (net_attempt net (0 + nat retries))))"
    using assms by (intro urlopen_exhausts) simp_all
  then show ?thesis
    by (simp add: session_get_def)
qed

lemma process_url_of_raise:
  "get u = Inl (RequestException e) \<Longrightarrow>
   process_url get BeautifulSoup u =
     Inr \<lparr>res_url = u, res_status_code = Marker request_failed,
          res_title = error_prefix @ e, res_success = False\<rparr>"
  by (simp add: process_url_def process_url_traced_cases)

lemma process_url_of_response:
  "get u = Inr resp \<Longrightarrow>
   \<exists>r. process_url get BeautifulSoup u = Inr r \<and>
       res_status_code r = Code (resp_status_code resp) \<and> res_success r"
  by (simp add: process_url_def process_url_traced_cases)

text \<open>
  C2, as the claim states it, fails in its general part: under \<^verbatim>\<open>retries=3\<close>, a server
  that answers 503 to each of the four attempts makes \<^verbatim>\<open>session.get\<close> raise. The last
  outcome, an answer with status 503, is not returned: the record carries the failure
  marker and \<open>success\<close> false.
\<close>

theorem last_outcome_returned_counterexample:
  "session_get 3
      \<lparr>net_attempt = (\<lambda>k. Answered \<lparr>ans_status_code = 503, ans_headers = Map.empty,
                                       ans_body = Inr []\<rparr>),
       net_describe = (\<lambda>_. ascii ''max retries''),
       net_retry_after_sleep = (\<lambda>_. None),
       net_follow = (\<lambda>_. Inl (OtherException []))\<rparr>
     = Inl (RequestException (ascii ''max retries''))
   \<and> process_url (\<lambda>url. session_get 3
        \<lparr>net_attempt = (\<lambda>k. Answered \<lparr>ans_status_code = 503, ans_headers = Map.empty,
                                         ans_body = Inr []\<rparr>),
         net_describe = (\<lambda>_. ascii ''max retries''),
         net_retry_after_sleep = (\<lambda>_. None),
         net_follow = (\<lambda>_. Inl (OtherException []))\<rparr>)
      (\<lambda>_. Inr []) (ascii ''http://x.io'')
     = Inr \<lparr>res_url = ascii ''http://x.io'', res_status_code = Marker request_failed,
            res_title = error_prefix @ ascii ''max retries'', res_success = False\<rparr>"
proof -
  let ?a = "\<lparr>ans_status_code = 503, ans_headers = Map.empty, ans_body = Inr []\<rparr>"
  let ?net = "\<lparr>net_attempt = (\<lambda>k. Answered ?a), net_describe = (\<lambda>_. ascii ''max retries''),
      net_retry_after_sleep = (\<lambda>_. None), net_follow = (\<lambda>_. Inl (OtherException []))\<rparr>"
  have "session_get 3 ?net
      = Inl (RequestException (net_describe ?net (net_attempt ?net (nat 3))))"
    by (rule session_get_exhausts)
       (simp_all add: retryable_def wait_returns_def retries_sleep_def status_forcelist_def)
  then have g: "session_get 3 ?net = Inl (RequestException (ascii ''max retries''))"
    by simp
  have "process_url (\<lambda>url. session_get 3 ?net) (\<lambda>_. Inr []) (ascii ''http://x.io'')
      = Inr \<lparr>res_url = ascii ''http://x.io'', res_status_code = Marker request_failed,
             res_title = error_prefix @ ascii ''max retries'', res_success = False\<rparr>"
    using g by (rule process_url_of_raise)
  with g show ?thesis
    by simp
qed

text \<open>
  C2, amended. Under \<^verbatim>\<open>retries=3\<close>, attempts answered 503, 503 and then 200 give a record
  with status 200 and \<open>success\<close> true, provided the waits after the two 503 answers return
  and the body of the third answer is read. More generally \<^verbatim>\<open>urlopen\<close> never returns an
  answer whose status is in the retry list: when every attempt up to the last one allowed
  is broken or answered with such a status, and the waits in between return,
  \<^verbatim>\<open>session.get\<close> raises a request exception, which \<open>process_url\<close> turns into a record with
  \<open>success\<close> false and the failure marker. No exception leaves \<open>process_url\<close>.
\<close>

theorem retry_outcome:
  "(net_attempt (net url) 0 = Answered a0 \<and> ans_status_code a0 = 503 \<and>
      retries_sleep (net url) a0 = None \<and>
    net_attempt (net url) 1 = Answered a1 \<and> ans_status_code a1 = 503 \<and>
      retries_sleep (net url) a1 = None \<and>
    net_attempt (net url) 2 = Answered a2 \<and> ans_status_code a2 = 200 \<and>
      ans_body a2 = Inr content \<longrightarrow>
      (\<exists>rec. process_url (\<lambda>u. session_get 3 (net u)) BeautifulSoup url = Inr rec \<and>
         res_status_code rec = Code 200 \<and> res_success rec))
   \<and> ((\<forall>j\<le>nat retries. retryable (net_attempt (net url) j)) \<and>
       (\<forall>j<nat retries. wait_returns (net url) (net_attempt (net url) j)) \<longrightarrow>
        session_get retries (net url)
          = Inl (RequestException
              (net_describe (net url) (net_attempt (net url) (nat retries)))) \<and>
        process_url (\<lambda>u. session_get retries (net u)) BeautifulSoup url
          = Inr \<lparr>res_url = url, res_status_code = Marker request_failed,
                 res_title = error_prefix @
                   net_describe (net url) (net_attempt (net url) (nat retries)),
                 res_success = False\<rparr>)
   \<and> (urlopen retries (net url) 0 = Inr a \<longrightarrow> ans_status_code a \<notin> set status_forcelist)
   \<and> (\<exists>rec. process_url (\<lambda>u. session_get retries (net u)) BeautifulSoup url = Inr rec)"
proof (intro conjI impI)
  assume h: "net_attempt (net url) 0 = Answered a0 \<and> ans_status_code a0 = 503 \<and>
      retries_sleep (net url) a0 = None \<and>
    net_attempt (net url) 1 = Answered a1 \<and> ans_status_code a1 = 503 \<and>
      retries_sleep (net url) a1 = None \<and>
    net_attempt (net url) 2 = Answered a2 \<and> ans_status_code a2 = 200 \<and>
      ans_body a2 = Inr content"
  then have "urlopen 3 (net url) 0 = Inr a2"
    using urlopen_503_503_200 [of "net url" a0 a1 a2] by simp
  with h have "session_get 3 (net url)
      = Inr \<lparr>resp_status_code = 200, resp_headers = ans_headers a2, resp_content = content\<rparr>"
    by (simp add: session_get_def is_redirect_def redirect_stati_def read_content_def)
  from process_url_of_response
    [of "\<lambda>u. session_get 3 (net u)" url _ BeautifulSoup, OF this]
  show "\<exists>rec. process_url (\<lambda>u. session_get 3 (net u)) BeautifulSoup url = Inr rec \<and>
      res_status_code rec = Code 200 \<and> res_success rec"
    by simp
next
  assume h: "(\<forall>j\<le>nat retries. retryable (net_attempt (net url) j)) \<and>
      (\<forall>j<nat retries. wait_returns (net url) (net_attempt (net url) j))"
  then show g: "session_get retries (net url)
      = Inl (RequestException (net_describe (net url) (net_attempt (net url) (nat retries))))"
    by (intro session_get_exhausts) simp_all
  show "process_url (\<lambda>u. session_get retries (net u)) BeautifulSoup url
      = Inr \<lparr>res_url = url, res_status_code = Marker request_failed,
             res_title = error_prefix @
               net_describe (net url) (net_attempt (net url) (nat retries)),
             res_success = False\<rparr>"
    using g by (rule process_url_of_raise)
next
  assume "urlopen retries (net url) 0 = Inr a"
  then show "ans_status_code a \<notin> set status_forcelist"
    by (rule urlopen_returns_unforced)
next
  show "\<exists>rec. process_url (\<lambda>u. session_get retries (net u)) BeautifulSoup url = Inr rec"
    by (rule process_url_returns)
qed

theorem retry_outcome_witness:
  "(\<exists>rec. process_url (\<lambda>u. session_get 3
        \<lparr>net_attempt = (\<lambda>k. if k < 2
           then Answered \<lparr>ans_status_code = 503, ans_headers = [''retry-after'' \<mapsto> ''1''],
                  ans_body = Inr []\<rparr>
           else Answered \<lparr>ans_status_code = 200, ans_headers = Map.empty,
                  ans_body = Inr ''ok''\<rparr>),
         net_describe = (\<lambda>_. ascii ''max retries''),
         net_retry_after_sleep = (\<lambda>_. None),
         net_follow = (\<lambda>_. Inl (OtherException []))\<rparr>)
      (\<lambda>_. Inr []) (ascii ''http://x.io'') = Inr rec \<and>
      res_status_code rec = Code 200 \<and> res_success rec)
   \<and> session_get 3
        \<lparr>net_attempt = (\<lambda>k. Broken (ascii ''refused'')),
         net_describe = (\<lambda>_. ascii ''max retries''),
         net_retry_after_sleep = (\<lambda>_. None),
         net_follow = (\<lambda>_. Inl (OtherException []))\<rparr>
      = Inl (RequestException (ascii ''max retries''))
   \<and> ans_status_code \<lparr>ans_status_code = 404, ans_headers = Map.empty, ans_body = Inr []\<rparr>
        \<notin> set status_forcelist"
proof -
  let ?a503 = "\<lparr>ans_status_code = 503, ans_headers = [''retry-after'' \<mapsto> ''1''],
      ans_body = Inr []\<rparr>"
  let ?a200 = "\<lparr>ans_status_code = 200, ans_headers = Map.empty, ans_body = Inr ''ok''\<rparr>"
  let ?a404 = "\<lparr>ans_status_code = 404, ans_headers = Map.empty, ans_body = Inr []\<rparr>"
  let ?n1 = "\<lparr>net_attempt = (\<lambda>k. if k < 2 then Answered ?a503 else Answered ?a200),
      net_describe = (\<lambda>_. ascii ''max retries''), net_retry_after_sleep = (\<lambda>_. None),
      net_follow = (\<lambda>_. Inl (OtherException []))\<rparr>"
  let ?n2 = "\<lparr>net_attempt = (\<lambda>k. Broken (ascii ''refused'')),
      net_describe = (\<lambda>_. ascii ''max retries''), net_retry_after_sleep = (\<lambda>_. None),
      net_follow = (\<lambda>_. Inl (OtherException []))\<rparr>"
  let ?n3 = "\<lparr>net_attempt = (\<lambda>k. Answered ?a404),
      net_describe = (\<lambda>_. ascii ''max retries''), net_retry_after_sleep = (\<lambda>_. None),
      net_follow = (\<lambda>_. Inl (OtherException []))\<rparr>"
  let ?bs = "(\<lambda>_. Inr []) :: html_parser"
  let ?U = "ascii ''http://x.io''"
  have h1: "net_attempt ((\<lambda>u. ?n1) ?U) 0 = Answered ?a503 \<and> ans_status_code ?a503 = 503 \<and>
      retries_sleep ((\<lambda>u. ?n1) ?U) ?a503 = None \<and>
      net_attempt ((\<lambda>u. ?n1) ?U) 1 = Answered ?a503 \<and> ans_status_code ?a503 = 503 \<and>
      retries_sleep ((\<lambda>u. ?n1) ?U) ?a503 = None \<and>
      net_attempt ((\<lambda>u. ?n1) ?U) 2 = Answered ?a200 \<and> ans_status_code ?a200 = 200 \<and>
      ans_body ?a200 = Inr ''ok''"
    by (simp add: retries_sleep_def)
  have h2: "(\<forall>j\<le>nat 3. retryable (net_attempt ((\<lambda>u. ?n2) ?U) j)) \<and>
      (\<forall>j<nat 3. wait_returns ((\<lambda>u. ?n2) ?U) (net_attempt ((\<lambda>u. ?n2) ?U) j))"
    by (simp add: retryable_def wait_returns_def)
  have h3: "urlopen 3 ((\<lambda>u. ?n3) ?U) 0 = Inr ?a404"
    by (simp add: urlopen.simps is_retry_def status_forcelist_def retry_after_status_codes_def)
  from retry_outcome [where net = "\<lambda>u. ?n1" and url = ?U and ?a0.0 = ?a503 and ?a1.0 = ?a503
      and ?a2.0 = ?a200 and content = "''ok''" and BeautifulSoup = ?bs] h1
  have c1: "\<exists>rec. process_url (\<lambda>u. session_get 3 ?n1) ?bs ?U = Inr rec \<and>
      res_status_code rec = Code 200 \<and> res_success rec"
    by blast
  from retry_outcome [where net = "\<lambda>u. ?n2" and url = ?U and retries = 3] h2
  have c2: "session_get 3 ?n2 = Inl (RequestException
      (net_describe ?n2 (net_attempt ?n2 (nat 3))))"
    by blast
  from retry_outcome [where net = "\<lambda>u. ?n3" and url = ?U and retries = 3 and a = ?a404] h3
  have c3: "ans_status_code ?a404 \<notin> set status_forcelist"
    by blast
  from c1 c2 c3 show ?thesis
    by simp
qed

section \<open>Success of a probe\<close>




section \<open>Properties of the batch runner\<close>

lemma normalize_url_nonempty: "normalize_url line = Some u \<Longrightarrow> u \<noteq> []"
  by (auto simp: normalize_url_def Let_def https_scheme_def ascii_def split: if_splits)

lemma valid_urls_from_none:
  "list_all (\<lambda>l. normalize_url l = None) urls \<Longrightarrow>
   valid_urls_from env i urls = Inr [] \<or> (\<exists>e. valid_urls_from env i urls = Inl e)"
proof (induction urls arbitrary: i)
  case Nil
  show ?case by simp
next
  case (Cons l urls)
  then have "normalize_url l = None" and "list_all (\<lambda>l. normalize_url l = None) urls"
    by simp_all
  with Cons.IH [of "Suc i"] show ?case
    by (auto simp: and_then_def split: option.splits)
qed

lemma valid_urls_from_some:
  "\<forall>t. os_print env t = None \<Longrightarrow> \<not> list_all (\<lambda>l. normalize_url l = None) urls \<Longrightarrow>
   \<exists>v vs. valid_urls_from env i urls = Inr (v # vs)"
proof (induction urls arbitrary: i)
  case Nil
  then show ?case by simp
next
  case (Cons l urls)
  have total: "\<exists>vs. valid_urls_from env j us = Inr vs" for j us
  proof (induction us arbitrary: j)
    case Nil
    show ?case by simp
  next
    case (Cons x us)
    obtain vs where "valid_urls_from env (Suc j) us = Inr vs"
      using Cons by blast
    with Cons.prems \<open>\<forall>t. os_print env t = None\<close> show ?case
      by (auto simp: and_then_def split: option.splits)
  qed
  show ?case
  proof (cases "normalize_url l")
    case None
    with Cons.prems have "\<not> list_all (\<lambda>l. normalize_url l = None) urls"
      by simp
    from Cons.IH [OF Cons.prems(1) this, of "Suc i"] None Cons.prems(1) show ?thesis
      by (auto simp: and_then_def)
  next
    case (Some u)
    obtain vs where "valid_urls_from env (Suc i) urls = Inr vs"
      using total by blast
    with Some normalize_url_nonempty [OF Some] show ?thesis
      by simp
  qed
qed

lemma process_loop_quiet:
  assumes "\<forall>t. os_print env t = None" and "0 < delay \<longrightarrow> os_sleep env delay = None"
    and "\<forall>t. os_write env t = None"
  shows "\<exists>st'. process_loop env delay session BeautifulSoup k valid_urls st = Inr st'"
proof (induction valid_urls arbitrary: k st)
  case Nil
  show ?case by simp
next
  case (Cons v rest)
  obtain line_num url where v: "v = (line_num, url)"
    by (cases v)
  obtain r where r: "process_url (session k) BeautifulSoup url = Inr r"
    using process_url_returns by blast
  have "\<exists>fh. write_row env (run_output st)
      (csv_row url (status_text (res_status_code r)) (replace_quotes (res_title r))) = Inr fh"
    using assms(3) by (cases "run_output st") (simp_all add: write_row_def)
  then obtain fh where fh: "write_row env (run_output st)
      (csv_row url (status_text (res_status_code r)) (replace_quotes (res_title r))) = Inr fh"
    by blast
  show ?case
    using Cons.IH assms by (simp add: v r fh Let_def and_then_def)
qed

lemma main_no_valid_url:
  assumes "os_exists_main env" "os_exists env" "read_urls env file_path = Inr (Some urls)"
    and "list_all (\<lambda>l. normalize_url l = None) urls"
  shows "main env delay session BeautifulSoup file_path output_file = exit_status env 1"
proof -
  from valid_urls_from_none [OF assms(4), of env 1]
  have "\<exists>e. process_file env delay session BeautifulSoup file_path output_file = Inl e \<or>
      process_file env delay session BeautifulSoup file_path output_file
        = Inr (False, \<lparr>run_results = [], run_output = None\<rparr>)"
    using assms(2,3)
    by (auto simp: process_file_def and_then_def split: option.splits)
  with assms(1) show ?thesis
    by (auto simp: main_def)
qed

lemma main_quiet:
  assumes "os_exists_main env" "os_exists env" "read_urls env file_path = Inr (Some urls)"
    and "\<not> list_all (\<lambda>l. normalize_url l = None) urls" and "quiet env delay"
  shows "main env delay session BeautifulSoup file_path output_file = 0"
proof -
  from assms(5) have p: "\<forall>t. os_print env t = None" and s: "0 < delay \<longrightarrow> os_sleep env delay = None"
    and w: "\<forall>t. os_write env t = None" and c: "os_close env = None" and f: "os_flush_at_exit env"
    by (simp_all add: quiet_def)
  obtain v vs where vs: "valid_urls_from env 1 urls = Inr (v # vs)"
    using valid_urls_from_some [OF p assms(4)] by blast
  have "\<exists>fh. open_output env output_file = Inr fh"
    using p w by (cases output_file; cases "os_open env") (simp_all add: open_output_def and_then_def)
  then obtain fh where fh: "open_output env output_file = Inr fh"
    by blast
  obtain st where st: "process_loop env delay session BeautifulSoup 0 (v # vs)
      \<lparr>run_results = [], run_output = fh\<rparr> = Inr st"
    using process_loop_quiet [OF p s w] by blast
  have "finish env output_file st = Inr (True, st)"
    using p c by (simp add: finish_def and_then_def Let_def split: option.splits)
  with assms(1,2,3) vs fh st p f show ?thesis
    by (simp add: main_def process_file_def and_then_def exit_status_def)
qed

text \<open>
  C7, as the claim states it, fails in its second half: with one line that normalises and
  a fetch that fails, a delay too large for \<^verbatim>\<open>time.sleep\<close> makes it raise after the first
  URL, and the run ends with status 1.
\<close>

theorem exit_zero_counterexample:
  "\<not> list_all (\<lambda>l. normalize_url l = None) [ascii ''example.com'' @ [10]]
   \<and> main \<lparr>os_exists_main = True, os_exists = True,
          os_read_utf8 = ReadLines [ascii ''example.com'' @ [10]], os_read_gbk = ReadError [],
          os_print = (\<lambda>_. None),
          os_sleep = (\<lambda>d. if 1000000000 < d
             then Some (OtherException (ascii ''timestamp too large'')) else None),
          os_open = None, os_write = (\<lambda>_. None), os_close = None, os_flush_at_exit = True\<rparr>
        1000000000000000000000000000000
        (\<lambda>k u. Inl (RequestException (ascii ''refused''))) (\<lambda>_. Inr [])
        (ascii ''urls.txt'') None = 1"
proof -
  have n: "normalize_url (ascii ''example.com'' @ [10]) = Some (ascii ''https://example.com'')"
    by (simp add: normalize_eval)
  have p: "process_url (\<lambda>u. Inl (RequestException (ascii ''refused''))) (\<lambda>_. Inr [])
      (ascii ''https://example.com'')
    = Inr \<lparr>res_url = ascii ''https://example.com'', res_status_code = Marker request_failed,
           res_title = error_prefix @ ascii ''refused'', res_success = False\<rparr>"
    by (simp add: process_url_def process_url_traced_cases)
  have a: "ascii ''https://example.com'' \<noteq> []"
    by (simp add: ascii_def)
  show ?thesis
    by (simp add: n p a main_def process_file_def read_urls_def open_output_def write_row_def
        and_then_def exit_status_def Let_def)
qed

text \<open>
  C7, amended. When the input file is read and none of its lines normalises, the run
  exits with a status other than zero. When at least one line normalises and no call
  made for its effect raises (printing, sleeping for the delay, writing to the output
  file and closing it, the last flush of the console), the run exits with status 0
  whatever the fetches do, so also when every one of them fails.
\<close>

theorem exit_status_by_valid_urls:
  "(os_exists_main env \<and> os_exists env \<and> read_urls env file_path = Inr (Some urls) \<and>
      list_all (\<lambda>l. normalize_url l = None) urls
      \<longrightarrow> main env delay session BeautifulSoup file_path output_file = exit_status env 1 \<and>
          main env delay session BeautifulSoup file_path output_file \<noteq> 0)
   \<and> (os_exists_main env \<and> os_exists env \<and> read_urls env file_path = Inr (Some urls) \<and>
      \<not> list_all (\<lambda>l. normalize_url l = None) urls \<and> quiet env delay
      \<longrightarrow> main env delay session BeautifulSoup file_path output_file = 0)"
proof -
  have "exit_status env 1 \<noteq> 0"
    by (simp add: exit_status_def)
  then show ?thesis
    using main_no_valid_url [of env file_path urls delay session BeautifulSoup output_file]
      main_quiet [of env file_path urls delay session BeautifulSoup output_file]
    by auto
qed

theorem exit_status_by_valid_urls_witness:
  "main \<lparr>os_exists_main = True, os_exists = True,
          os_read_utf8 = ReadLines [ascii ''not a url!!'' @ [10], [10]],
          os_read_gbk = ReadError [],
          os_print = (\<lambda>_. Some (OtherException (ascii ''cannot encode''))),
          os_sleep = (\<lambda>_. None), os_open = None, os_write = (\<lambda>_. None), os_close = None,
          os_flush_at_exit = True\<rparr>
      1 (\<lambda>k u. Inl (RequestException (ascii ''refused''))) (\<lambda>_. Inr [])
      (ascii ''urls.txt'') None \<noteq> 0
   \<and> main \<lparr>os_exists_main = True, os_exists = True,
          os_read_utf8 = UnicodeDecodeError [],
          os_read_gbk = ReadLines [[10], ascii ''example.com'' @ [10]],
          os_print = (\<lambda>_. None), os_sleep = (\<lambda>_. None),
          os_open = Some (OtherException (ascii ''denied'')), os_write = (\<lambda>_. None),
          os_close = None, os_flush_at_exit = True\<rparr>
      1 (\<lambda>k u. Inl (RequestException (ascii ''refused''))) (\<lambda>_. Inr [])
      (ascii ''urls.txt'') (Some (ascii ''out.csv'')) = 0"
proof -
  let ?bad = "[ascii ''not a url!!'' @ [10], [10]]"
  let ?good = "[[10], ascii ''example.com'' @ [10]]"
  let ?e0 = "\<lparr>os_exists_main = True, os_exists = True, os_read_utf8 = ReadLines ?bad,
      os_read_gbk = ReadError [],
      os_print = (\<lambda>_. Some (OtherException (ascii ''cannot encode''))),
      os_sleep = (\<lambda>_. None), os_open = None, os_write = (\<lambda>_. None), os_close = None,
      os_flush_at_exit = True\<rparr>"
  let ?e1 = "\<lparr>os_exists_main = True, os_exists = True, os_read_utf8 = UnicodeDecodeError [],
      os_read_gbk = ReadLines ?good, os_print = (\<lambda>_. None), os_sleep = (\<lambda>_. None),
      os_open = Some (OtherException (ascii ''denied'')), os_write = (\<lambda>_. None),
      os_close = None, os_flush_at_exit = True\<rparr>"
  let ?s = "(\<lambda>k u. Inl (RequestException (ascii ''refused''))) :: nat \<Rightarrow> pystr \<Rightarrow> exn + response"
  let ?bs = "(\<lambda>_. Inr []) :: html_parser"
  let ?f = "ascii ''urls.txt''"
  have h0: "os_exists_main ?e0 \<and> os_exists ?e0 \<and> read_urls ?e0 ?f = Inr (Some ?bad) \<and>
      list_all (\<lambda>l. normalize_url l = None) ?bad"
    by (simp add: read_urls_def normalize_eval)
  have h1: "os_exists_main ?e1 \<and> os_exists ?e1 \<and> read_urls ?e1 ?f = Inr (Some ?good) \<and>
      \<not> list_all (\<lambda>l. normalize_url l = None) ?good \<and> quiet ?e1 1"
    by (simp add: read_urls_def normalize_eval quiet_def)
  from exit_status_by_valid_urls [of ?e0 ?f ?bad 1 ?s ?bs None] h0
  have "main ?e0 1 ?s ?bs ?f None \<noteq> 0"
    by blast
  moreover from exit_status_by_valid_urls [of ?e1 ?f ?good 1 ?s ?bs "Some (ascii ''out.csv'')"] h1
  have "main ?e1 1 ?s ?bs ?f (Some (ascii ''out.csv'')) = 0"
    by blast
  ultimately show ?thesis
    by blast
qed

section \<open>Properties of the CSV rows\<close>

lemma read_quoted_sound:
  "read_quoted inp = Some (f, rest) \<Longrightarrow> inp = replace_quotes f @ 34 # rest"
proof (induction inp arbitrary: f rest rule: read_quoted.induct)
  case 1
  then show ?case by simp
next
  case (2 c)
  then show ?case by (simp add: replace_quotes_def split: if_splits)
next
  case (3 c d cs)
  show ?case
  proof (cases "c = 34")
    case c: True
    show ?thesis
    proof (cases "d = 34")
      case True
      with c "3.prems" obtain f' where f': "read_quoted cs = Some (f', rest)" "f = 34 # f'"
        by (auto split: option.splits)
      from "3.IH"(1) [OF c True f'(1)] have "cs = replace_quotes f' @ 34 # rest" .
      with c True f'(2) show ?thesis
        by (simp add: replace_quotes_def)
    next
      case False
      with c "3.prems" show ?thesis
        by (simp add: replace_quotes_def)
    qed
  next
    case False
    with "3.prems" obtain f' where f': "read_quoted (d # cs) = Some (f', rest)" "f = c # f'"
      by (auto split: option.splits)
    from "3.IH"(2) [OF False f'(1)] have "d # cs = replace_quotes f' @ 34 # rest" .
    with False f'(2) show ?thesis
      by (simp add: replace_quotes_def)
  qed
qed

lemma verbatim_quote_mismatch:
  "u @ 34 # 44 # T = replicate n 34 @ replace_quotes u @ 34 # R \<Longrightarrow> n = 0 \<and> 34 \<notin> set u"
proof (induction u arbitrary: n)
  case Nil
  then show ?case
    by (cases n; cases "n - 1") (auto simp: replace_quotes_def)
next
  case (Cons c u)
  show ?case
  proof (cases n)
    case 0
    show ?thesis
    proof (cases "c = 34")
      case True
      with Cons.prems 0 have "u @ 34 # 44 # T = replicate 1 34 @ replace_quotes u @ 34 # R"
        by (simp add: replace_quotes_def)
      from Cons.IH [OF this] show ?thesis by simp
    next
      case False
      with Cons.prems 0 have "u @ 34 # 44 # T = replicate 0 34 @ replace_quotes u @ 34 # R"
        by (simp add: replace_quotes_def)
      from Cons.IH [OF this] False 0 show ?thesis by simp
    qed
  next
    case (Suc m)
    with Cons.prems have c: "c = 34"
      and "u @ 34 # 44 # T = replicate m 34 @ replace_quotes (c # u) @ 34 # R"
      by simp_all
    then have "u @ 34 # 44 # T = replicate (Suc (Suc m)) 34 @ replace_quotes u @ 34 # R"
      by (simp add: replace_quotes_def replicate_app_Cons_same)
    from Cons.IH [OF this] show ?thesis by simp
  qed
qed

lemma csv_fields_first:
  "csv_fields (34 # inp) = Some (f # fs) \<Longrightarrow> \<exists>rest. read_quoted inp = Some (f, rest)"
  by (subst (asm) csv_fields.simps) (auto split: option.splits if_splits)

lemma csv_row_first_field:
  assumes "csv_fields (csv_row u status_display title_csv) = Some (f # fs)" and "34 \<in> set u"
  shows "f \<noteq> u"
proof
  assume "f = u"
  with assms(1) obtain rest where
    "read_quoted (u @ [34, 44, 34] @ status_display @ [34, 44, 34] @ title_csv @ [34, 10])
       = Some (u, rest)"
    using csv_fields_first by (fastforce simp: csv_row_def)
  from read_quoted_sound [OF this]
  have "u @ 34 # 44 # (34 # status_display @ [34, 44, 34] @ title_csv @ [34, 10])
      = replicate 0 34 @ replace_quotes u @ 34 # rest"
    by simp
  from verbatim_quote_mismatch [OF this] assms(2) show False
    by simp
qed
lemma replace_quotes_simps:
  "replace_quotes [] = []"
  "replace_quotes (c # s) = (if c = 34 then 34 # 34 # replace_quotes s else c # replace_quotes s)"
  by (simp_all add: replace_quotes_def)

lemma replace_quotes_id: "34 \<notin> set s \<Longrightarrow> replace_quotes s = s"
  by (induction s) (auto simp: replace_quotes_simps)

lemma read_quoted_complete:
  "R = [] \<or> hd R \<noteq> 34 \<Longrightarrow> read_quoted (replace_quotes f @ 34 # R) = Some (f, R)"
proof (induction f)
  case Nil
  then show ?case
    by (cases R) (auto simp: replace_quotes_simps)
next
  case (Cons c f)
  obtain d cs where dcs: "replace_quotes f @ 34 # R = d # cs"
    by (cases "replace_quotes f @ 34 # R") auto
  show ?case
  proof (cases "c = 34")
    case True
    with Cons show ?thesis
      by (simp add: replace_quotes_simps)
  next
    case False
    from Cons have "read_quoted (d # cs) = Some (f, R)"
      by (simp add: dcs)
    with False show ?thesis
      by (simp add: replace_quotes_simps dcs)
  qed
qed

lemma csv_fields_quoted_last:
  "csv_fields (34 # replace_quotes t @ [34, 10]) = Some [t]"
  using read_quoted_complete [of "[10]" t]
  by (subst csv_fields.simps) simp

lemma csv_fields_quoted_more:
  "csv_fields (34 # replace_quotes f @ 34 # 44 # others) =
     (case csv_fields others of None \<Rightarrow> None | Some fs \<Rightarrow> Some (f # fs))"
  using read_quoted_complete [of "44 # others" f]
  by (subst csv_fields.simps) simp

lemma csv_row_reads_back:
  assumes "34 \<notin> set u" and "34 \<notin> set status_display"
  shows "csv_fields (csv_row u status_display (replace_quotes t)) = Some [u, status_display, t]"
proof -
  have "csv_row u status_display (replace_quotes t) =
      34 # replace_quotes u @ 34 # 44 #
        (34 # replace_quotes status_display @ 34 # 44 # (34 # replace_quotes t @ [34, 10]))"
    using assms by (simp add: csv_row_def replace_quotes_id)
  then show ?thesis
    by (simp only: csv_fields_quoted_more csv_fields_quoted_last option.case)
qed

lemma digits_no_quote: "34 \<notin> set (digits n)"
proof (induction n rule: digits.induct)
  case (1 n)
  then show ?case
    by (subst digits.simps) auto
qed

lemma status_text_no_quote:
  "process_url get BeautifulSoup u = Inr r \<Longrightarrow> 34 \<notin> set (status_text (res_status_code r))"
  by (auto simp: process_url_def process_url_traced_cases str_int_def digits_no_quote
      request_failed_def processing_failed_def split: sum.splits exn.splits if_splits)
text \<open>
  C10, as the claim states it, fails: the URL \<^verbatim>\<open>http://a""b\<close> holds double quotes and is
  accepted by \<open>normalize_url\<close>, and its row is a well-formed record, read back with the
  first field \<^verbatim>\<open>http://a"b\<close>.
\<close>

theorem csv_row_unparseable_counterexample:
  "normalize_url (ascii ''http://a'' @ [34, 34] @ ascii ''b'')
      = Some (ascii ''http://a'' @ [34, 34] @ ascii ''b'')
   \<and> 34 \<in> set (ascii ''http://a'' @ [34, 34] @ ascii ''b'')
   \<and> csv_fields (csv_row (ascii ''http://a'' @ [34, 34] @ ascii ''b'') (status_text (Code 200))
        (replace_quotes (ascii ''t'')))
      = Some [ascii ''http://a'' @ [34] @ ascii ''b'', ascii ''200'', ascii ''t'']"
proof -
  have "normalize_url (ascii ''http://a'' @ [34, 34] @ ascii ''b'')
      = Some (ascii ''http://a'' @ [34, 34] @ ascii ''b'')"
    by (simp add: normalize_eval)
  moreover have "csv_fields (csv_row (ascii ''http://a'' @ [34, 34] @ ascii ''b'')
      (status_text (Code 200)) (replace_quotes (ascii ''t'')))
      = Some [ascii ''http://a'' @ [34] @ ascii ''b'', ascii ''200'', ascii ''t'']"
    by (simp add: csv_fields.simps csv_row_def ascii_def replace_quotes_def str_int_def
        digits.simps)
  ultimately show ?thesis
    by simp
qed

lemma process_loop_single:
  assumes "process_loop env delay session BeautifulSoup k [(line_num, u)]
      \<lparr>run_results = rs, run_output = Some rows\<rparr> = Inr st"
  shows "\<exists>r. process_url (session k) BeautifulSoup u = Inr r \<and>
      run_results st = rs @ [r] \<and>
      run_output st = Some (rows @ [csv_row u (status_text (res_status_code r))
        (replace_quotes (res_title r))])"
proof -
  obtain r where r: "process_url (session k) BeautifulSoup u = Inr r"
    using process_url_returns by blast
  with assms show ?thesis
    by (auto simp: Let_def and_then_def write_row_def split: option.splits if_splits)
qed

text \<open>
  C10, amended. The row written for a URL is the URL and the status between double
  quotes as they are, and the title with each double quote written twice. The status
  never holds a double quote. The row reads back as the three fields (URL, status, title)
  exactly when the URL holds no double quote; when it holds one, the first field read
  back, if the row can be read at all, is never the URL.
\<close>

theorem csv_row_quoting:
  "(process_loop env delay session BeautifulSoup k [(line_num, u)]
        \<lparr>run_results = rs, run_output = Some rows\<rparr> = Inr st \<longrightarrow>
      (\<exists>r. process_url (session k) BeautifulSoup u = Inr r \<and>
         run_output st = Some (rows @
           [[34] @ u @ [34, 44, 34] @ status_text (res_status_code r) @ [34, 44, 34] @
            replace_quotes (res_title r) @ [34, 10]])))
   \<and> (process_url get BeautifulSoup u = Inr r \<longrightarrow>
        34 \<notin> set (status_text (res_status_code r)) \<and>
        (csv_fields (csv_row u (status_text (res_status_code r)) (replace_quotes (res_title r)))
           = Some [u, status_text (res_status_code r), res_title r]
         \<longleftrightarrow> 34 \<notin> set u))
   \<and> (34 \<in> set u \<longrightarrow> csv_fields (csv_row u status_display title_csv) \<noteq> Some (u # fs))"
proof (intro conjI impI)
  assume "process_loop env delay session BeautifulSoup k [(line_num, u)]
      \<lparr>run_results = rs, run_output = Some rows\<rparr> = Inr st"
  from process_loop_single [OF this]
  show "\<exists>r. process_url (session k) BeautifulSoup u = Inr r \<and>
      run_output st = Some (rows @
        [[34] @ u @ [34, 44, 34] @ status_text (res_status_code r) @ [34, 44, 34] @
         replace_quotes (res_title r) @ [34, 10]])"
    by (auto simp: csv_row_def)
next
  assume r: "process_url get BeautifulSoup u = Inr r"
  then show "34 \<notin> set (status_text (res_status_code r))"
    by (rule status_text_no_quote)
  show "csv_fields (csv_row u (status_text (res_status_code r)) (replace_quotes (res_title r)))
      = Some [u, status_text (res_status_code r), res_title r] \<longleftrightarrow> 34 \<notin> set u"
    using csv_row_reads_back [OF _ status_text_no_quote [OF r]] csv_row_first_field
    by blast
next
  assume "34 \<in> set u"
  then show "csv_fields (csv_row u status_display title_csv) \<noteq> Some (u # fs)"
    using csv_row_first_field by blast
qed

theorem csv_row_quoting_witness:
  "run_output (\<lparr>run_results = [\<lparr>res_url = ascii ''http://x.io'', res_status_code = Code 200,
        res_title = non_html_prefix, res_success = True\<rparr>],
      run_output = Some [csv_header,
        csv_row (ascii ''http://x.io'') (ascii ''200'') non_html_prefix]\<rparr>)
     = Some ([csv_header] @ [[34] @ ascii ''http://x.io'' @ [34, 44, 34] @ ascii ''200'' @
         [34, 44, 34] @ replace_quotes non_html_prefix @ [34, 10]])
   \<and> csv_fields (csv_row (ascii ''http://x.io'') (ascii ''200'') (replace_quotes non_html_prefix))
     = Some [ascii ''http://x.io'', ascii ''200'', non_html_prefix]
   \<and> csv_fields (csv_row (ascii ''http://a'' @ [34] @ ascii ''b'') (ascii ''200'') [])
     \<noteq> Some [ascii ''http://a'' @ [34] @ ascii ''b'', ascii ''200'', []]"
proof -
  let ?resp = "\<lparr>resp_status_code = 200, resp_headers = Map.empty, resp_content = []\<rparr>"
  let ?S = "(\<lambda>k u. Inr ?resp) :: nat \<Rightarrow> pystr \<Rightarrow> exn + response"
  let ?bs = "(\<lambda>_. Inr []) :: html_parser"
  let ?E = "\<lparr>os_exists_main = True, os_exists = True, os_read_utf8 = ReadLines [],
      os_read_gbk = ReadLines [], os_print = (\<lambda>_. None), os_sleep = (\<lambda>_. None),
      os_open = None, os_write = (\<lambda>_. None), os_close = None, os_flush_at_exit = True\<rparr>"
  let ?U = "ascii ''http://x.io''"
  let ?V = "ascii ''http://a'' @ [34] @ ascii ''b''"
  let ?R = "\<lparr>res_url = ?U, res_status_code = Code 200, res_title = non_html_prefix,
      res_success = True\<rparr>"
  let ?ST = "\<lparr>run_results = [?R],
      run_output = Some [csv_header, csv_row ?U (ascii ''200'') non_html_prefix]\<rparr>"
  have r: "process_url (?S 0) ?bs ?U = Inr ?R"
    by (simp add: process_url_def process_url_traced_cases headers_get_def py_lower_def)
  have t: "str_int 200 = ascii ''200''"
    by (simp add: str_int_def digits.simps ascii_def)
  have q: "replace_quotes non_html_prefix = non_html_prefix"
    by (simp add: replace_quotes_def non_html_prefix_def)
  have h1: "process_loop ?E 1 ?S ?bs 0 [(1, ?U)]
      \<lparr>run_results = [], run_output = Some [csv_header]\<rparr> = Inr ?ST"
    by (simp add: r t q Let_def and_then_def write_row_def)
  have h3: "34 \<notin> set ?U" and h4: "34 \<in> set ?V"
    by (simp_all add: ascii_def)
  from csv_row_quoting [where env = ?E and delay = 1 and session = ?S and BeautifulSoup = ?bs
      and k = 0 and line_num = 1
      and u = ?U and rs = "[]" and rows = "[csv_header]" and st = ?ST] h1
  obtain r' where "process_url (?S 0) ?bs ?U = Inr r'"
    and "run_output ?ST = Some ([csv_header] @
      [[34] @ ?U @ [34, 44, 34] @ status_text (res_status_code r') @ [34, 44, 34] @
       replace_quotes (res_title r') @ [34, 10]])"
    by blast
  with r have c1: "run_output ?ST = Some ([csv_header] @
      [[34] @ ?U @ [34, 44, 34] @ ascii ''200'' @ [34, 44, 34] @
       replace_quotes non_html_prefix @ [34, 10]])"
    using t by simp
  from csv_row_quoting [where get = "?S 0" and BeautifulSoup = ?bs and u = ?U and r = ?R] r h3
  have "csv_fields (csv_row ?U (status_text (res_status_code ?R)) (replace_quotes (res_title ?R)))
      = Some [?U, status_text (res_status_code ?R), res_title ?R]"
    by blast
  then have c2: "csv_fields (csv_row ?U (ascii ''200'') (replace_quotes non_html_prefix))
      = Some [?U, ascii ''200'', non_html_prefix]"
    using t by simp
  from csv_row_quoting [where u = ?V and status_display = "ascii ''200''" and title_csv = "[]"
      and fs = "[ascii ''200'', []]"] h4
  have c3: "csv_fields (csv_row ?V (ascii ''200'') []) \<noteq> Some [?V, ascii ''200'', []]"
    by blast
  from c1 c2 c3 show ?thesis
    by blast
qed

end
